theory Spec2Isabelle
  imports Main "HOL-Library.Word" "HOL-Library.AList"
begin

unbundle bit_operations_syntax

section \<open>Data model\<close>

text \<open>
  The cache of \<^verbatim>\<open>peter-mount/filecache\<close>: items (\<^verbatim>\<open>item.go\<close>), the table and its
  operations (\<^verbatim>\<open>table.go\<close>), the expiry engines and the disk layout.

  Conventions of the embedding.
  \<^item> A value of Go's \<^verbatim>\<open>interface{}\<close> is an \<open>'v option\<close>, \<open>None\<close> being \<^verbatim>\<open>nil\<close>; a
    \<^verbatim>\<open>[]byte\<close> that may be \<^verbatim>\<open>nil\<close> is a \<open>byte list option\<close>.
  \<^item> A \<^verbatim>\<open>time.Duration\<close> is a 64-bit word read as a signed number of nanoseconds:
    \<open>-\<close> wraps, \<open><s\<close> and \<open>\<le>s\<close> compare signed. A \<^verbatim>\<open>time.Time\<close> is an instant, an
    integer counting nanoseconds; \<^verbatim>\<open>Sub\<close> saturates as the library does. Every call of
    \<^verbatim>\<open>time.Now()\<close> is a parameter of the function that makes it, so that two readings
    within one operation may differ.
  \<^item> An item is a value: the pointer a table holds and the pointer a caller was given
    name one item, and a method called through either changes the entry of the map.
  \<^item> The Go map \<^verbatim>\<open>items\<close> is an association list; its order is the order in which
    \<^verbatim>\<open>range\<close> happens to visit the entries. Lookup is \<open>map_of\<close>, assignment is
    \<open>AList.update\<close>, the builtin \<^verbatim>\<open>delete\<close> is \<open>AList.delete\<close>.
  \<^item> The file system is the section after the next.
  \<^item> Callbacks are opaque: a table or an item records whether one is set, and a call is
    an entry of the event log. A callback does not call back into the table.
  \<^item> The bounded channel \<^verbatim>\<open>persistQueue\<close> is the list of entries sent and not yet
    received; a sender blocked on a full channel has sent once it resumes.
  \<^item> Mutexes are not modelled: every operation runs alone.
\<close>

type_synonym byte = "8 word"

type_synonym duration = "64 word"

record 'v CacheItem =
  key :: string
  data :: "'v option"
  lifeSpan :: duration
  createdOn :: int
  accessedOn :: int
  accessCount :: "64 word"
  aboutToExpire :: bool

datatype persistEntry = PersistEntry (pe_key: string) (pe_val: "byte list")

record fileInfo =
  content :: "byte list"
  modTime :: int

text \<open>
  The log: the calls of the three callbacks, and the panic of the walk's closure when
  \<^verbatim>\<open>filepath.Walk\<close> hands it a \<^verbatim>\<open>nil\<close> \<^verbatim>\<open>os.FileInfo\<close>.
\<close>

datatype event =
  AddItemCalled string | DeleteItemCalled string | AboutToExpireCalled string | NilInfoPanic

datatype error = ErrKeyNotFound | ErrMkdirAll

text \<open>
  The fields of \<^verbatim>\<open>CacheTable\<close> in the order of the source (\<open>cacheDir\<close> stands for
  \<^verbatim>\<open>parent.cacheDir\<close>), then the environment: the digest function of \<^verbatim>\<open>crypto/md5\<close>
  (sixteen bytes, read as one 128-bit number, most significant byte first), the regular
  files and the directories of the file system, and the log. A timer is \<open>Some d\<close> when
  it is armed to fire after \<open>d\<close>, and \<open>None\<close> when it is \<^verbatim>\<open>nil\<close> or stopped.
\<close>

record 'v CacheTable =
  cacheDir :: string
  name :: string
  basePath :: string
  expiryTime :: duration
  toBytes :: "'v option \<Rightarrow> byte list option"
  fromBytes :: "byte list \<Rightarrow> 'v option"
  startupOptions :: int
  diskExpiryTime :: duration
  diskExpiryInterval :: duration
  diskExpiryTimer :: "duration option"
  persistQueue :: "persistEntry list"
  items :: "(string \<times> 'v CacheItem) list"
  started :: bool
  cleanupTimer :: "duration option"
  cleanupInterval :: duration
  dataLoader :: "(string \<Rightarrow> 'v option list \<Rightarrow> 'v CacheItem option) option"
  addItem :: bool
  deleteItem :: bool
  md5sum :: "string \<Rightarrow> 128 word"
  disk :: "(string \<times> fileInfo) list"
  dirs :: "string list"
  events :: "event list"

section \<open>Items and time\<close>

definition NewCacheItem :: "int \<Rightarrow> string \<Rightarrow> duration \<Rightarrow> 'v option \<Rightarrow> 'v CacheItem" where
  "NewCacheItem t k ls d =
     \<lparr>key = k, data = d, lifeSpan = ls, createdOn = t, accessedOn = t,
      accessCount = 0, aboutToExpire = False\<rparr>"

definition NewCreatedCacheItem ::
  "int \<Rightarrow> string \<Rightarrow> duration \<Rightarrow> 'v option \<Rightarrow> int \<Rightarrow> 'v CacheItem" where
  "NewCreatedCacheItem now k ls d created =
     \<lparr>key = k, data = d, lifeSpan = ls, createdOn = created, accessedOn = now,
      accessCount = 0, aboutToExpire = False\<rparr>"

text \<open>The characters of the second argument of \<^verbatim>\<open>strings.ContainsAny\<close> in \<^verbatim>\<open>IsValid\<close>.\<close>

definition forbidden :: "char list" where
  "forbidden =
     [CHR ''/'', CHR 0x5C, CHR ''<'', CHR ''>'', CHR '':'', CHR 0x22, CHR ''|'', CHR ''?'',
      CHR ''*'', CHR 0x00]"

definition ContainsAny :: "string \<Rightarrow> char list \<Rightarrow> bool" where
  "ContainsAny s chars = list_ex (\<lambda>c. c \<in> set chars) s"

text \<open>The receiver of \<^verbatim>\<open>IsValid\<close> may be \<^verbatim>\<open>nil\<close>, which is \<open>None\<close>.\<close>

fun IsValid :: "'v CacheItem option \<Rightarrow> bool" where
  "IsValid None = False"
| "IsValid (Some item) =
     (key item \<noteq> [] \<and>
      (case key item of [] \<Rightarrow> False | c # _ \<Rightarrow> c \<noteq> CHR ''.'') \<and>
      \<not> ContainsAny (key item) forbidden \<and>
      data item \<noteq> None \<and>
      0 <s lifeSpan item)"

definition KeepAlive :: "int \<Rightarrow> 'v CacheItem \<Rightarrow> 'v CacheItem" where
  "KeepAlive now item = item\<lparr>accessedOn := now, accessCount := accessCount item + 1\<rparr>"

definition AccessCount :: "'v CacheItem \<Rightarrow> int" where
  "AccessCount item = sint (accessCount item)"

text \<open>
  \<^verbatim>\<open>Time.Sub\<close>: the difference of two instants as a duration, \<^verbatim>\<open>maxDuration\<close> or
  \<^verbatim>\<open>minDuration\<close> when it does not fit. \<^verbatim>\<open>Time.Add\<close>, \<^verbatim>\<open>Before\<close> and \<^verbatim>\<open>After\<close> are
  \<open>t + sint d\<close>, \<open><\<close> and \<open>>\<close> on instants.
\<close>

definition maxDuration :: duration where
  "maxDuration = 0x7FFFFFFFFFFFFFFF"

definition minDuration :: duration where
  "minDuration = 0x8000000000000000"

definition Sub :: "int \<Rightarrow> int \<Rightarrow> duration" where
  "Sub t u =
     (if t - u > sint maxDuration then maxDuration
      else if t - u < sint minDuration then minDuration
      else word_of_int (t - u))"

definition TimeAdd :: "int \<Rightarrow> duration \<Rightarrow> int" where
  "TimeAdd t d = t + sint d"

section \<open>Paths on disk\<close>

text \<open>\<^verbatim>\<open>os.PathSeparator\<close> and the one-character string made of it.\<close>

definition os_PathSeparator :: char where
  "os_PathSeparator = CHR ''/''"

definition PathSeparator :: string where
  "PathSeparator = [os_PathSeparator]"

text \<open>\<^verbatim>\<open>h.Sum(nil)\<close>: the sixteen bytes of the digest, most significant first.\<close>

definition Sum :: "128 word \<Rightarrow> byte list" where
  "Sum w = map (\<lambda>i. ucast (drop_bit (8 * (15 - i)) w)) [0..<16]"

definition hextable :: string where
  "hextable = ''0123456789abcdef''"

definition EncodeToString :: "byte list \<Rightarrow> string" where
  "EncodeToString bs =
     concat (map (\<lambda>v. [hextable ! unat (drop_bit 4 v), hextable ! unat (v AND 0x0f)]) bs)"

definition getPath :: "'v CacheTable \<Rightarrow> string \<Rightarrow> string \<times> string" where
  "getPath tbl k =
     (let b = EncodeToString (Sum (md5sum tbl k))
      in (basePath tbl @ PathSeparator @ take 1 b @ PathSeparator @ take 2 (drop 1 b), k))"

definition getFilePath :: "'v CacheTable \<Rightarrow> string \<Rightarrow> string" where
  "getFilePath tbl k = (case getPath tbl k of (dir, fn) \<Rightarrow> dir @ PathSeparator @ fn)"

section \<open>The file system\<close>

text \<open>
  The part of the operating system that the package calls, for a Unix system: paths are
  separated by \<^verbatim>\<open>/\<close>, a name holds at most 255 bytes and a path fewer than 4096. There
  are no symbolic links, the process may read and write everything, and the device
  does not fail. The state is the association list of the regular files and the list of
  the directories, each under its canonical path: the path as \<^verbatim>\<open>filepath.Clean\<close> leaves
  it, relative to the working directory unless it begins with \<^verbatim>\<open>/\<close>. The root, the
  working directory and the directories above it exist without being listed.
\<close>

datatype errno = ENOENT | ENOTDIR | EISDIR | ENAMETOOLONG | EINVAL | EEXIST | ENOTEMPTY

datatype kind = KNone | KFile | KDir

type_synonym fsys = "(string \<times> fileInfo) list \<times> string list"

text \<open>\<^verbatim>\<open>strings.Split(s, "/")\<close> and \<^verbatim>\<open>strings.Join(xs, "/")\<close>.\<close>

primrec splitSep :: "string \<Rightarrow> string list" where
  "splitSep [] = [[]]"
| "splitSep (c # s) =
     (if c = os_PathSeparator then [] # splitSep s
      else (case splitSep s of [] \<Rightarrow> [[c]] | x # xs \<Rightarrow> (c # x) # xs))"

fun joinSep :: "string list \<Rightarrow> string" where
  "joinSep [] = []"
| "joinSep [x] = x"
| "joinSep (x # y # r) = x @ PathSeparator @ joinSep (y # r)"

definition rooted :: "string \<Rightarrow> bool" where
  "rooted p = (take 1 p = PathSeparator)"

text \<open>The names of a path: its pieces other than the empty one and \<^verbatim>\<open>.\<close>\<close>

definition names :: "string \<Rightarrow> string list" where
  "names p = filter (\<lambda>c. c \<noteq> [] \<and> c \<noteq> ''.'') (splitSep p)"

text \<open>
  \<^verbatim>\<open>filepath.Clean\<close>: a name followed by \<^verbatim>\<open>..\<close> goes with it, \<^verbatim>\<open>..\<close> at the root goes, and
  the empty result is \<^verbatim>\<open>.\<close>
\<close>

definition cleanStep :: "bool \<Rightarrow> string list \<Rightarrow> string \<Rightarrow> string list" where
  "cleanStep r st c =
     (if c = ''..''
      then (if st \<noteq> [] \<and> last st \<noteq> ''..'' then butlast st else if r then st else st @ [c])
      else st @ [c])"

definition Clean :: "string \<Rightarrow> string" where
  "Clean p =
     (let out = (if rooted p then PathSeparator else [])
                @ joinSep (foldl (cleanStep (rooted p)) [] (names p))
      in if out = [] then ''.'' else out)"

text \<open>\<^verbatim>\<open>filepath.Join\<close> of two elements that are not empty.\<close>

definition Join :: "string \<Rightarrow> string \<Rightarrow> string" where
  "Join a b = Clean (a @ PathSeparator @ b)"

definition NAME_MAX :: nat where "NAME_MAX = 255"

definition PATH_MAX :: nat where "PATH_MAX = 4096"

definition implicitDir :: "string \<Rightarrow> bool" where
  "implicitDir c =
     (c = ''.'' \<or> c = PathSeparator
      \<or> (\<not> rooted c \<and> names c \<noteq> [] \<and> list_all (\<lambda>x. x = ''..'') (names c)))"

definition kindOf :: "fsys \<Rightarrow> string \<Rightarrow> kind" where
  "kindOf fs c =
     (if map_of (fst fs) c \<noteq> None then KFile
      else if c \<in> set (snd fs) \<or> implicitDir c then KDir
      else KNone)"

text \<open>
  The walk of the kernel along the pieces of a path, from the canonical path \<open>cur\<close>: to
  step into a name, \<open>cur\<close> must be a directory and the name must not be too long. The
  result is the canonical path that the whole path names, whether it exists or not.
\<close>

fun lookupFrom :: "fsys \<Rightarrow> string \<Rightarrow> string list \<Rightarrow> errno + string" where
  "lookupFrom fs cur [] = Inr cur"
| "lookupFrom fs cur (c # cs) =
     (if c = [] then lookupFrom fs cur cs
      else (case kindOf fs cur of
              KFile \<Rightarrow> Inl ENOTDIR
            | KNone \<Rightarrow> Inl ENOENT
            | KDir \<Rightarrow> if length c > NAME_MAX then Inl ENAMETOOLONG
                      else lookupFrom fs (Join cur c) cs))"

definition Lookup :: "fsys \<Rightarrow> string \<Rightarrow> errno + string" where
  "Lookup fs p =
     (if p = [] then Inl ENOENT
      else if CHR 0x00 \<in> set p then Inl EINVAL
      else if length p \<ge> PATH_MAX then Inl ENAMETOOLONG
      else (case lookupFrom fs (if rooted p then PathSeparator else ''.'') (splitSep p) of
              Inl e \<Rightarrow> Inl e
            | Inr c \<Rightarrow> if last p = os_PathSeparator \<and> kindOf fs c = KFile then Inl ENOTDIR
                       else Inr c))"

text \<open>\<^verbatim>\<open>os.Stat\<close> (and \<^verbatim>\<open>os.Lstat\<close>): the canonical path and the kind of what is there.\<close>

definition Stat :: "fsys \<Rightarrow> string \<Rightarrow> errno + string \<times> kind" where
  "Stat fs p =
     (case Lookup fs p of
        Inl e \<Rightarrow> Inl e
      | Inr c \<Rightarrow> (case kindOf fs c of KNone \<Rightarrow> Inl ENOENT | k \<Rightarrow> Inr (c, k)))"

definition IsNotExist :: "errno + 'a \<Rightarrow> bool" where
  "IsNotExist r = (case r of Inl e \<Rightarrow> e = ENOENT | Inr x \<Rightarrow> False)"

text \<open>
  \<^verbatim>\<open>os.Open\<close>, \<^verbatim>\<open>ioutil.ReadAll\<close> and \<^verbatim>\<open>file.Stat\<close> in a row: the bytes and the information
  of a regular file, and nothing when any of the three fails (reading a directory
  fails).
\<close>

definition ReadFile :: "fsys \<Rightarrow> string \<Rightarrow> fileInfo option" where
  "ReadFile fs p =
     (case Stat fs p of
        Inr (c, KFile) \<Rightarrow> map_of (fst fs) c
      | _ \<Rightarrow> None)"

text \<open>
  \<^verbatim>\<open>ioutil.WriteFile\<close> at time \<open>t\<close>: an existing regular file gets the bytes, a missing
  one is created in its directory, and the call fails, changing nothing, on a
  directory, on a path that ends in a separator, and where the walk fails.
\<close>

definition WriteFile :: "fsys \<Rightarrow> string \<Rightarrow> byte list \<Rightarrow> int \<Rightarrow> fsys" where
  "WriteFile fs p bs t =
     (case Lookup fs p of
        Inl e \<Rightarrow> fs
      | Inr c \<Rightarrow>
          (case kindOf fs c of
             KDir \<Rightarrow> fs
           | KFile \<Rightarrow> (AList.update c \<lparr>content = bs, modTime = t\<rparr> (fst fs), snd fs)
           | KNone \<Rightarrow> if last p = os_PathSeparator then fs
                      else (AList.update c \<lparr>content = bs, modTime = t\<rparr> (fst fs), snd fs)))"

text \<open>\<^verbatim>\<open>os.Mkdir\<close>: \<open>None\<close> when it fails.\<close>

definition Mkdir :: "fsys \<Rightarrow> string \<Rightarrow> fsys option" where
  "Mkdir fs p =
     (case Lookup fs p of
        Inl e \<Rightarrow> None
      | Inr c \<Rightarrow> if kindOf fs c = KNone then Some (fst fs, snd fs @ [c]) else None)"

text \<open>
  \<^verbatim>\<open>os.MkdirAll\<close> makes the directories along the path, the shortest first, leaves the
  ones that exist, and stops at the first it cannot make. It succeeds when the path is
  a directory in the end.
\<close>

definition rawPrefixes :: "string \<Rightarrow> string list" where
  "rawPrefixes p =
     filter (\<lambda>q. q \<noteq> [])
       (map (\<lambda>i. joinSep (take i (splitSep p))) [1..<Suc (length (splitSep p))])"

definition isDirAt :: "fsys \<Rightarrow> string \<Rightarrow> bool" where
  "isDirAt fs p = (case Stat fs p of Inr (c, KDir) \<Rightarrow> True | _ \<Rightarrow> False)"

fun mkdirAll_loop :: "fsys \<Rightarrow> string list \<Rightarrow> fsys" where
  "mkdirAll_loop fs [] = fs"
| "mkdirAll_loop fs (q # qs) =
     (if isDirAt fs q then mkdirAll_loop fs qs
      else (case Mkdir fs q of None \<Rightarrow> fs | Some fs' \<Rightarrow> mkdirAll_loop fs' qs))"

definition MkdirAll :: "fsys \<Rightarrow> string \<Rightarrow> bool \<times> fsys" where
  "MkdirAll fs p = (let fs' = mkdirAll_loop fs (rawPrefixes p) in (isDirAt fs' p, fs'))"

text \<open>
  \<^verbatim>\<open>os.Remove\<close>: a regular file goes; a listed directory goes when nothing is in it and
  the path does not end in \<^verbatim>\<open>.\<close> or \<^verbatim>\<open>..\<close>; otherwise the call fails and changes nothing.
\<close>

definition parentOf :: "string \<Rightarrow> string" where
  "parentOf c = Join c ''..''"

definition isEmptyDir :: "fsys \<Rightarrow> string \<Rightarrow> bool" where
  "isEmptyDir fs c = list_all (\<lambda>p. parentOf p \<noteq> c) (map fst (fst fs) @ snd fs)"

definition lastPiece :: "string \<Rightarrow> string" where
  "lastPiece p = (case rev (filter (\<lambda>c. c \<noteq> []) (splitSep p)) of [] \<Rightarrow> [] | c # _ \<Rightarrow> c)"

definition Remove :: "fsys \<Rightarrow> string \<Rightarrow> fsys" where
  "Remove fs p =
     (case Lookup fs p of
        Inl e \<Rightarrow> fs
      | Inr c \<Rightarrow>
          (case kindOf fs c of
             KFile \<Rightarrow> (AList.delete c (fst fs), snd fs)
           | KDir \<Rightarrow> if c \<in> set (snd fs) \<and> isEmptyDir fs c
                        \<and> lastPiece p \<noteq> ''.'' \<and> lastPiece p \<noteq> ''..''
                      then (fst fs, removeAll c (snd fs)) else fs
           | KNone \<Rightarrow> fs))"

text \<open>
  The order of \<^verbatim>\<open>filepath.Walk\<close>: the names of a directory sorted as byte strings, a
  directory before what it holds. \<open>below r c\<close>: the canonical path \<open>c\<close> lies in the tree
  of the directory with the canonical path \<open>r\<close>.
\<close>

fun strLess :: "string \<Rightarrow> string \<Rightarrow> bool" where
  "strLess [] [] = False"
| "strLess [] (y # ys) = True"
| "strLess (x # xs) [] = False"
| "strLess (x # xs) (y # ys) =
     ((of_char x :: nat) < of_char y \<or> (x = y \<and> strLess xs ys))"

fun namesLess :: "string list \<Rightarrow> string list \<Rightarrow> bool" where
  "namesLess [] [] = False"
| "namesLess [] (y # ys) = True"
| "namesLess (x # xs) [] = False"
| "namesLess (x # xs) (y # ys) = (strLess x y \<or> (x = y \<and> namesLess xs ys))"

fun insertPath :: "string \<Rightarrow> string list \<Rightarrow> string list" where
  "insertPath p [] = [p]"
| "insertPath p (q # qs) =
     (if namesLess (names q) (names p) then q # insertPath p qs else p # q # qs)"

definition sortPaths :: "string list \<Rightarrow> string list" where
  "sortPaths ps = foldr insertPath ps []"

definition below :: "string \<Rightarrow> string \<Rightarrow> bool" where
  "below r c =
     (rooted r = rooted c \<and> length (names r) < length (names c)
      \<and> take (length (names r)) (names c) = names r
      \<and> names c ! length (names r) \<noteq> ''..'')"

definition filesBelow :: "fsys \<Rightarrow> string \<Rightarrow> string list" where
  "filesBelow fs r = sortPaths (filter (below r) (map fst (fst fs)))"

definition fsOf :: "'v CacheTable \<Rightarrow> fsys" where
  "fsOf tbl = (disk tbl, dirs tbl)"

definition withFs :: "'v CacheTable \<Rightarrow> fsys \<Rightarrow> 'v CacheTable" where
  "withFs tbl fs = tbl\<lparr>disk := fst fs, dirs := snd fs\<rparr>"

section \<open>The table\<close>

subsection \<open>Persistence worker and disk loader\<close>

text \<open>
  \<^verbatim>\<open>persist\<close> writes one entry; \<open>t\<close> is the modification time the file system gives the
  file. The source discards the errors of both calls, so a call that fails leaves its
  part undone. \<open>persistWorker\<close> is one round of the loop started by \<^verbatim>\<open>start\<close>: it
  receives the oldest entry and persists it, and waits (changes nothing) on an empty
  channel.
\<close>

definition persist :: "int \<Rightarrow> persistEntry \<Rightarrow> 'v CacheTable \<Rightarrow> 'v CacheTable" where
  "persist t e tbl =
     (case getPath tbl (pe_key e) of (dir, fileName) \<Rightarrow>
        (let fs1 = snd (MkdirAll (fsOf tbl) dir);
             fs2 = WriteFile fs1 (dir @ PathSeparator @ fileName) (pe_val e) t
         in withFs tbl fs2))"

definition persistWorker :: "int \<Rightarrow> 'v CacheTable \<Rightarrow> 'v CacheTable" where
  "persistWorker t tbl =
     (case persistQueue tbl of
        [] \<Rightarrow> tbl
      | e # q \<Rightarrow> persist t e (tbl\<lparr>persistQueue := q\<rparr>))"

definition diskLoader :: "int \<Rightarrow> string \<Rightarrow> 'v CacheTable \<Rightarrow> 'v CacheItem option" where
  "diskLoader now k tbl =
     (case ReadFile (fsOf tbl) (getFilePath tbl k) of
        None \<Rightarrow> None
      | Some info \<Rightarrow>
          (case fromBytes tbl (content info) of
             None \<Rightarrow> None
           | Some val \<Rightarrow>
               Some (NewCreatedCacheItem now k (expiryTime tbl) (Some val) (modTime info))))"

definition Count :: "'v CacheTable \<Rightarrow> nat" where
  "Count tbl = length (items tbl)"

subsection \<open>Deleting from memory\<close>

text \<open>
  Both branches of \<^verbatim>\<open>delete\<close> end by removing the key; the second one first calls the
  table's callback and then the item's, each when it is set.
\<close>

definition delete :: "string \<Rightarrow> 'v CacheTable \<Rightarrow> 'v CacheTable" where
  "delete k tbl =
     (case map_of (items tbl) k of
        None \<Rightarrow> tbl
      | Some r \<Rightarrow>
          if \<not> deleteItem tbl \<and> \<not> aboutToExpire r
          then tbl\<lparr>items := AList.delete k (items tbl)\<rparr>
          else tbl\<lparr>events := events tbl
                         @ (if deleteItem tbl then [DeleteItemCalled (key r)] else [])
                         @ (if aboutToExpire r then [AboutToExpireCalled k] else []),
                    items := AList.delete k (items tbl)\<rparr>)"

definition DeleteFromMemory :: "string \<Rightarrow> 'v CacheTable \<Rightarrow> 'v CacheTable" where
  "DeleteFromMemory k tbl = delete k tbl"

definition DeleteFromMemoryAndDisk :: "string \<Rightarrow> 'v CacheTable \<Rightarrow> 'v CacheTable" where
  "DeleteFromMemoryAndDisk k tbl =
     (let tbl1 = delete k tbl
      in withFs tbl1 (Remove (fsOf tbl1) (getFilePath tbl1 k)))"

subsection \<open>Memory expiry\<close>

definition stopMemoryExpiryTimer :: "'v CacheTable \<Rightarrow> 'v CacheTable" where
  "stopMemoryExpiryTimer tbl = tbl\<lparr>cleanupTimer := None\<rparr>"

text \<open>
  The \<^verbatim>\<open>range\<close> loop of \<^verbatim>\<open>expireMemory\<close> over the entries of the map, carrying the
  table and \<^verbatim>\<open>smallestDuration\<close>. The loop removes only the entry it is visiting, so it
  visits every entry the map had when the loop began.
\<close>

fun expireMemory_loop ::
  "int \<Rightarrow> (string \<times> 'v CacheItem) list \<Rightarrow> 'v CacheTable \<times> duration
   \<Rightarrow> 'v CacheTable \<times> duration" where
  "expireMemory_loop now [] s = s"
| "expireMemory_loop now ((k, item) # rest) (tbl, smallestDuration) =
     (if lifeSpan item = 0 then expireMemory_loop now rest (tbl, smallestDuration)
      else if lifeSpan item \<le>s Sub now (accessedOn item)
      then expireMemory_loop now rest (delete k tbl, smallestDuration)
      else if smallestDuration = 0
              \<or> lifeSpan item - Sub now (accessedOn item) <s smallestDuration
      then expireMemory_loop now rest (tbl, lifeSpan item - Sub now (accessedOn item))
      else expireMemory_loop now rest (tbl, smallestDuration))"

definition expireMemory :: "int \<Rightarrow> 'v CacheTable \<Rightarrow> 'v CacheTable" where
  "expireMemory now tbl =
     (let tbl1 = stopMemoryExpiryTimer tbl
      in case expireMemory_loop now (items tbl1) (tbl1, 0) of
           (tbl2, smallestDuration) \<Rightarrow>
             (let tbl3 = tbl2\<lparr>cleanupInterval := smallestDuration\<rparr>
              in if 0 <s smallestDuration then tbl3\<lparr>cleanupTimer := Some smallestDuration\<rparr>
                 else tbl3))"

subsection \<open>Adding\<close>

text \<open>
  \<^verbatim>\<open>add\<close> takes a non-nil item and returns it; \<open>now\<close> is the clock reading of the
  \<^verbatim>\<open>expireMemory\<close> it may call.
\<close>

definition add :: "int \<Rightarrow> 'v CacheItem \<Rightarrow> 'v CacheTable \<Rightarrow> 'v CacheItem \<times> 'v CacheTable" where
  "add now item tbl =
     (let tbl1 = tbl\<lparr>items := AList.update (key item) item (items tbl)\<rparr>;
          expDur = cleanupInterval tbl1;
          tbl2 = (if addItem tbl1
                  then tbl1\<lparr>events := events tbl1 @ [AddItemCalled (key item)]\<rparr> else tbl1);
          tbl3 = (if 0 <s lifeSpan item \<and> (expDur = 0 \<or> lifeSpan item <s expDur)
                  then expireMemory now tbl2 else tbl2);
          tbl4 = (case toBytes tbl3 (data item) of
                    None \<Rightarrow> tbl3
                  | Some b \<Rightarrow>
                      tbl3\<lparr>persistQueue := persistQueue tbl3 @ [PersistEntry (key item) b]\<rparr>)
      in (item, tbl4))"

text \<open>
  \<open>t\<close> is the clock reading of \<^verbatim>\<open>NewCacheItem\<close>, \<open>now\<close> the later one of \<^verbatim>\<open>add\<close>. The
  result \<open>None\<close> is \<^verbatim>\<open>nil\<close>.
\<close>

definition AddExpiry ::
  "int \<Rightarrow> int \<Rightarrow> string \<Rightarrow> duration \<Rightarrow> 'v option \<Rightarrow> 'v CacheTable
   \<Rightarrow> 'v CacheItem option \<times> 'v CacheTable" where
  "AddExpiry t now k ls d tbl =
     (let item = NewCacheItem t k ls d
      in if \<not> IsValid (Some item) then (None, tbl)
         else (case add now item tbl of (it, tbl') \<Rightarrow> (Some it, tbl')))"

definition Add ::
  "int \<Rightarrow> int \<Rightarrow> string \<Rightarrow> 'v option \<Rightarrow> 'v CacheTable \<Rightarrow> 'v CacheItem option \<times> 'v CacheTable" where
  "Add t now k d tbl = AddExpiry t now k (expiryTime tbl) d tbl"

text \<open>
  \<^verbatim>\<open>os.Stat\<close> followed by \<^verbatim>\<open>!os.IsNotExist(err)\<close>: true when the path names something, and
  also when \<^verbatim>\<open>Stat\<close> fails with another error than the one for a missing file. The
  comparison \<^verbatim>\<open>table.add(...) != nil\<close> is \<open>True\<close>, since \<^verbatim>\<open>add\<close> returns its argument.
\<close>

definition NotFoundAddExpiry ::
  "int \<Rightarrow> int \<Rightarrow> string \<Rightarrow> duration \<Rightarrow> 'v option \<Rightarrow> 'v CacheTable
   \<Rightarrow> bool \<times> 'v CacheTable" where
  "NotFoundAddExpiry t now k ls d tbl =
     (let ok = (map_of (items tbl) k \<noteq> None);
          ok' = (if \<not> ok then \<not> IsNotExist (Stat (fsOf tbl) (getFilePath tbl k)) else ok)
      in if ok' then (False, tbl)
         else (case add now (NewCacheItem t k ls d) tbl of (it, tbl') \<Rightarrow> (True, tbl')))"

definition NotFoundAdd ::
  "int \<Rightarrow> int \<Rightarrow> string \<Rightarrow> 'v option \<Rightarrow> 'v CacheTable \<Rightarrow> bool \<times> 'v CacheTable" where
  "NotFoundAdd t now k d tbl = NotFoundAddExpiry t now k (expiryTime tbl) d tbl"

definition Exists :: "string \<Rightarrow> 'v CacheTable \<Rightarrow> bool" where
  "Exists k tbl =
     (let ok = (map_of (items tbl) k \<noteq> None)
      in if \<not> ok then \<not> IsNotExist (Stat (fsOf tbl) (getFilePath tbl k)) else ok)"

definition ExistsInMemory :: "string \<Rightarrow> 'v CacheTable \<Rightarrow> bool" where
  "ExistsInMemory k tbl = (map_of (items tbl) k \<noteq> None)"

subsection \<open>Get\<close>

text \<open>
  \<open>t\<close> is the clock reading of \<^verbatim>\<open>KeepAlive\<close> on a memory hit and of \<^verbatim>\<open>diskLoader\<close>
  otherwise; \<open>now\<close> is the one of \<^verbatim>\<open>add\<close>. \<^verbatim>\<open>KeepAlive\<close> writes through the pointer
  held by the map, so the entry of the map changes with it.
\<close>

definition Get ::
  "int \<Rightarrow> int \<Rightarrow> string \<Rightarrow> 'v option list \<Rightarrow> 'v CacheTable
   \<Rightarrow> (error + 'v CacheItem) \<times> 'v CacheTable" where
  "Get t now k args tbl =
     (case map_of (items tbl) k of
        Some r \<Rightarrow>
          (let r' = KeepAlive t r
           in (Inr r', tbl\<lparr>items := AList.update k r' (items tbl)\<rparr>))
      | None \<Rightarrow>
          (let item = diskLoader t k tbl;
               item' = (case (item, dataLoader tbl) of
                          (None, Some loader) \<Rightarrow> loader k args
                        | _ \<Rightarrow> item)
           in case item' of
                Some i \<Rightarrow>
                  if IsValid (Some i)
                  then (case add now i tbl of (it, tbl') \<Rightarrow> (Inr it, tbl'))
                  else (Inl ErrKeyNotFound, tbl)
              | None \<Rightarrow> (Inl ErrKeyNotFound, tbl)))"

section \<open>The directory walk and the disk engines\<close>

text \<open>
  \<^verbatim>\<open>strings.SplitN\<close> for a separator of one character and a count that is not negative:
  no piece for 0, the whole string for 1, and otherwise a cut at the first separator
  with one piece less for the rest.
\<close>

fun SplitN :: "string \<Rightarrow> char \<Rightarrow> nat \<Rightarrow> string list" where
  "SplitN s sep 0 = []"
| "SplitN s sep (Suc 0) = [s]"
| "SplitN s sep (Suc (Suc n)) =
     (if sep \<in> set s
      then takeWhile (\<lambda>c. c \<noteq> sep) s # SplitN (drop 1 (dropWhile (\<lambda>c. c \<noteq> sep) s)) sep (Suc n)
      else [s])"

text \<open>
  \<^verbatim>\<open>filepath.Walk\<close> and the closure that \<^verbatim>\<open>walk\<close> hands to it. The closure reads
  \<^verbatim>\<open>info.IsDir()\<close> first: it panics when \<^verbatim>\<open>Walk\<close> could not \<^verbatim>\<open>Lstat\<close> the root and so
  hands it no information; the deferred calls of the caller still run, so the model
  logs the panic and lets the walk do nothing. A root that is a regular file is
  reported under the path as given. In a root that is a directory the files are
  reported, in the order of the walk, under \<^verbatim>\<open>filepath.Join\<close> of the directory's path
  and the name, which is the canonical path. \<^verbatim>\<open>Walk\<close> reads a directory when it enters
  it: a file that a visitor removed from a directory not yet entered is never seen, and
  the visitors of this package remove no other file, so the loop skips a file that is
  gone. A visitor gets the key, the path and the file's information, and transforms
  the table together with the variables it captures; the visitors of this package all
  return \<^verbatim>\<open>nil\<close>.
\<close>

definition visit ::
  "(string \<Rightarrow> string \<Rightarrow> fileInfo \<Rightarrow> 'v CacheTable \<times> 'a \<Rightarrow> 'v CacheTable \<times> 'a)
   \<Rightarrow> string \<Rightarrow> fileInfo \<Rightarrow> 'v CacheTable \<times> 'a \<Rightarrow> 'v CacheTable \<times> 'a" where
  "visit f path info s =
     (let ks = SplitN path os_PathSeparator 3
      in if length ks = 3 then f (ks ! 2) path info s else s)"

fun walk_loop ::
  "(string \<Rightarrow> string \<Rightarrow> fileInfo \<Rightarrow> 'v CacheTable \<times> 'a \<Rightarrow> 'v CacheTable \<times> 'a)
   \<Rightarrow> string list \<Rightarrow> 'v CacheTable \<times> 'a \<Rightarrow> 'v CacheTable \<times> 'a" where
  "walk_loop f [] s = s"
| "walk_loop f (path # rest) (tbl, acc) =
     (case map_of (disk tbl) path of
        None \<Rightarrow> walk_loop f rest (tbl, acc)
      | Some info \<Rightarrow> walk_loop f rest (visit f path info (tbl, acc)))"

definition walk ::
  "(string \<Rightarrow> string \<Rightarrow> fileInfo \<Rightarrow> 'v CacheTable \<times> 'a \<Rightarrow> 'v CacheTable \<times> 'a)
   \<Rightarrow> 'v CacheTable \<Rightarrow> 'a \<Rightarrow> 'v CacheTable \<times> 'a" where
  "walk f tbl acc =
     (case Stat (fsOf tbl) (basePath tbl) of
        Inl e \<Rightarrow> (tbl\<lparr>events := events tbl @ [NilInfoPanic]\<rparr>, acc)
      | Inr (c, k) \<Rightarrow>
          if k = KDir then walk_loop f (filesBelow (fsOf tbl) c) (tbl, acc)
          else (case map_of (disk tbl) c of
                  None \<Rightarrow> (tbl, acc)
                | Some info \<Rightarrow> visit f (basePath tbl) info (tbl, acc)))"

definition stopDiskExpiryTimer :: "'v CacheTable \<Rightarrow> 'v CacheTable" where
  "stopDiskExpiryTimer tbl = tbl\<lparr>diskExpiryTimer := None\<rparr>"

definition startDiskExpiryTimer :: "'v CacheTable \<Rightarrow> 'v CacheTable" where
  "startDiskExpiryTimer tbl = tbl\<lparr>diskExpiryTimer := Some (diskExpiryInterval tbl)\<rparr>"

text \<open>The visitor of \<^verbatim>\<open>ExpireDiskMaxAge\<close>; it captures \<^verbatim>\<open>expireTime\<close> and counts.\<close>

definition expireVisitor ::
  "int \<Rightarrow> string \<Rightarrow> string \<Rightarrow> fileInfo \<Rightarrow> 'v CacheTable \<times> nat \<Rightarrow> 'v CacheTable \<times> nat" where
  "expireVisitor expireTime k path info s =
     (case s of (tbl, expired) \<Rightarrow>
        if modTime info < expireTime then (DeleteFromMemoryAndDisk k tbl, expired + 1)
        else (tbl, expired))"

definition ExpireDiskMaxAge :: "int \<Rightarrow> duration \<Rightarrow> 'v CacheTable \<Rightarrow> nat \<times> 'v CacheTable" where
  "ExpireDiskMaxAge now maxAge tbl =
     (let tbl1 = stopDiskExpiryTimer tbl;
          maxAge' = (if 0 <s maxAge then - maxAge else maxAge);
          expireTime = TimeAdd now maxAge'
      in case walk (expireVisitor expireTime) tbl1 0 of
           (tbl2, expired) \<Rightarrow> (expired, startDiskExpiryTimer tbl2))"

definition ExpireDisk :: "int \<Rightarrow> 'v CacheTable \<Rightarrow> nat \<times> 'v CacheTable" where
  "ExpireDisk now tbl = ExpireDiskMaxAge now (diskExpiryTime tbl) tbl"

definition flushMemory :: "'v CacheTable \<Rightarrow> 'v CacheTable" where
  "flushMemory tbl = stopMemoryExpiryTimer (tbl\<lparr>items := [], cleanupInterval := 0\<rparr>)"

definition flushVisitor ::
  "string \<Rightarrow> string \<Rightarrow> fileInfo \<Rightarrow> 'v CacheTable \<times> unit \<Rightarrow> 'v CacheTable \<times> unit" where
  "flushVisitor k path info s =
     (case s of (tbl, u) \<Rightarrow> (withFs tbl (Remove (fsOf tbl) path), u))"

definition flushDisk :: "'v CacheTable \<Rightarrow> 'v CacheTable" where
  "flushDisk tbl = fst (walk flushVisitor tbl ())"

definition FlushMemory :: "'v CacheTable \<Rightarrow> 'v CacheTable" where
  "FlushMemory tbl = flushMemory tbl"

definition FlushDisk :: "'v CacheTable \<Rightarrow> 'v CacheTable" where
  "FlushDisk tbl = startDiskExpiryTimer (flushDisk (stopDiskExpiryTimer tbl))"

definition FlushMemoryAndDisk :: "'v CacheTable \<Rightarrow> 'v CacheTable" where
  "FlushMemoryAndDisk tbl =
     startDiskExpiryTimer (flushDisk (flushMemory (stopDiskExpiryTimer tbl)))"

text \<open>
  The visitor of \<^verbatim>\<open>loadCache\<close>; it captures the negated \<^verbatim>\<open>maxAge\<close> and \<^verbatim>\<open>loadTime\<close>.
  The clock readings of \<^verbatim>\<open>diskLoader\<close> during one load are the reading \<open>t\<close>.
\<close>

definition loadVisitor ::
  "int \<Rightarrow> duration \<Rightarrow> int \<Rightarrow> string \<Rightarrow> string \<Rightarrow> fileInfo \<Rightarrow> 'v CacheTable \<times> unit
   \<Rightarrow> 'v CacheTable \<times> unit" where
  "loadVisitor t maxAge loadTime k path info s =
     (case s of (tbl, u) \<Rightarrow>
        if maxAge = 0 \<or> modTime info > loadTime
        then (case diskLoader t k tbl of
                None \<Rightarrow> (tbl, u)
              | Some item \<Rightarrow> (tbl\<lparr>items := AList.update k item (items tbl)\<rparr>, u))
        else (tbl, u))"

definition loadCache :: "int \<Rightarrow> int \<Rightarrow> duration \<Rightarrow> 'v CacheTable \<Rightarrow> 'v CacheTable" where
  "loadCache t now maxAge tbl =
     (let tbl1 = stopDiskExpiryTimer tbl;
          maxAge' = (if 0 <s maxAge then - maxAge else maxAge);
          loadTime = TimeAdd t maxAge';
          tbl2 = fst (walk (loadVisitor t maxAge' loadTime) tbl1 ())
      in expireMemory now (startDiskExpiryTimer tbl2))"

text \<open>
  \<^verbatim>\<open>ForeachDisk\<close> calls the walker \<^verbatim>\<open>f\<close> of its caller; the result is the list of the
  arguments of these calls, in order. \<open>now\<close> is the clock reading of
  \<^verbatim>\<open>NewCreatedCacheItem\<close>.
\<close>

definition foreachVisitor ::
  "int \<Rightarrow> string \<Rightarrow> string \<Rightarrow> fileInfo \<Rightarrow> 'v CacheTable \<times> (string \<times> 'v CacheItem) list
   \<Rightarrow> 'v CacheTable \<times> (string \<times> 'v CacheItem) list" where
  "foreachVisitor now k path info s =
     (case s of (tbl, calls) \<Rightarrow>
        (tbl, calls @ [(k, NewCreatedCacheItem now k (expiryTime tbl) None (modTime info))]))"

definition ForeachDisk :: "int \<Rightarrow> 'v CacheTable \<Rightarrow> (string \<times> 'v CacheItem) list" where
  "ForeachDisk now tbl = snd (walk (foreachVisitor now) tbl [])"

section \<open>Creating and starting a table\<close>

record 'v CacheTableConfig =
  Name :: string
  ExpiryTime :: duration
  ToBytes :: "('v option \<Rightarrow> byte list option) option"
  FromBytes :: "byte list \<Rightarrow> 'v option"
  StartupOptions :: int
  DiskExpiryTime :: duration
  DiscExpiryInterval :: duration
  PersistQueueSize :: int
  DataLoader :: "(string \<Rightarrow> 'v option list \<Rightarrow> 'v CacheItem option) option"
  AddItem :: bool
  DeleteItem :: bool

definition FlushCacheOnStart :: int where "FlushCacheOnStart = 0"
definition ExpireCacheOnStart :: int where "ExpireCacheOnStart = 1"
definition LoadCacheOnStart :: int where "LoadCacheOnStart = 2"
definition LoadEntireCacheOnStart :: int where "LoadEntireCacheOnStart = 3"

definition Hour :: duration where
  "Hour = 3600 * 1000000000"

text \<open>
  The table that \<^verbatim>\<open>AddCache\<close> builds from a configuration. \<open>dir\<close> is the directory of
  the cache it is added to, \<open>ToJsonBytes\<close> the default serializer, \<open>h\<close> the digest
  function, \<open>fs\<close> the files and \<open>ds\<close> the directories present. The registry of tables
  is not modelled.
\<close>

definition AddCache ::
  "string \<Rightarrow> ('v option \<Rightarrow> byte list option) \<Rightarrow> (string \<Rightarrow> 128 word) \<Rightarrow> (string \<times> fileInfo) list
   \<Rightarrow> string list \<Rightarrow> 'v CacheTableConfig \<Rightarrow> 'v CacheTable" where
  "AddCache dir ToJsonBytes h fs ds cfg =
     \<lparr>cacheDir = dir,
      name = Name cfg,
      basePath = [],
      expiryTime = (if ExpiryTime cfg <s 0 then 0 else ExpiryTime cfg),
      toBytes = (case ToBytes cfg of None \<Rightarrow> ToJsonBytes | Some f \<Rightarrow> f),
      fromBytes = FromBytes cfg,
      startupOptions = StartupOptions cfg,
      diskExpiryTime = (if DiskExpiryTime cfg \<le>s 0 then 24 * Hour else DiskExpiryTime cfg),
      diskExpiryInterval = (if DiscExpiryInterval cfg \<le>s 0 then Hour else DiscExpiryInterval cfg),
      diskExpiryTimer = None,
      persistQueue = [],
      items = [],
      started = False,
      cleanupTimer = None,
      cleanupInterval = 0,
      dataLoader = DataLoader cfg,
      addItem = AddItem cfg,
      deleteItem = DeleteItem cfg,
      md5sum = h,
      disk = fs,
      dirs = ds,
      events = []\<rparr>"

text \<open>
  \<^verbatim>\<open>start\<close>: the base path is set before \<^verbatim>\<open>os.MkdirAll\<close> is tried. The worker and the
  task of the startup option run as goroutines, that is, as later steps
  (\<open>persistWorker\<close>, \<open>FlushDisk\<close>, \<open>ExpireDisk\<close>, \<open>loadCache\<close>); only the default
  branch acts within \<^verbatim>\<open>start\<close>.
\<close>

definition start :: "'v CacheTable \<Rightarrow> error option \<times> 'v CacheTable" where
  "start tbl =
     (let tbl1 = tbl\<lparr>basePath := cacheDir tbl @ PathSeparator @ name tbl\<rparr>
      in case MkdirAll (fsOf tbl1) (basePath tbl1) of
           (ok, fs) \<Rightarrow>
             if \<not> ok then (Some ErrMkdirAll, withFs tbl1 fs)
             else (let tbl2 = (withFs tbl1 fs)\<lparr>started := True\<rparr>
                   in if startupOptions tbl2 = FlushCacheOnStart
                        \<or> startupOptions tbl2 = ExpireCacheOnStart
                        \<or> startupOptions tbl2 = LoadCacheOnStart
                        \<or> startupOptions tbl2 = LoadEntireCacheOnStart
                      then (None, tbl2)
                      else (None, startDiskExpiryTimer tbl2)))"

definition stop :: "'v CacheTable \<Rightarrow> 'v CacheTable" where
  "stop tbl = (if started tbl then (stopDiskExpiryTimer tbl)\<lparr>started := False\<rparr> else tbl)"

section \<open>Reachable states\<close>

definition SetAboutToExpireCallback :: "bool \<Rightarrow> 'v CacheItem \<Rightarrow> 'v CacheItem" where
  "SetAboutToExpireCallback f item = item\<lparr>aboutToExpire := f\<rparr>"

text \<open>
  A table is reachable when it comes from \<^verbatim>\<open>AddCache\<close> by the operations of the
  package, the firing of its timers, rounds of the worker, and the two methods by which
  a caller changes an item through the pointer it was given.
\<close>

inductive reachable :: "'v CacheTable \<Rightarrow> bool" where
  r_AddCache: "reachable (AddCache dir ToJsonBytes h fs ds cfg)"
| r_start: "reachable tbl \<Longrightarrow> reachable (snd (start tbl))"
| r_stop: "reachable tbl \<Longrightarrow> reachable (stop tbl)"
| r_persistWorker: "reachable tbl \<Longrightarrow> reachable (persistWorker t tbl)"
| r_AddExpiry: "reachable tbl \<Longrightarrow> reachable (snd (AddExpiry t now k ls d tbl))"
| r_NotFoundAddExpiry:
    "reachable tbl \<Longrightarrow> reachable (snd (NotFoundAddExpiry t now k ls d tbl))"
| r_Get: "reachable tbl \<Longrightarrow> reachable (snd (Get t now k args tbl))"
| r_DeleteFromMemory: "reachable tbl \<Longrightarrow> reachable (DeleteFromMemory k tbl)"
| r_DeleteFromMemoryAndDisk: "reachable tbl \<Longrightarrow> reachable (DeleteFromMemoryAndDisk k tbl)"
| r_expireMemory: "reachable tbl \<Longrightarrow> reachable (expireMemory now tbl)"
| r_ExpireDiskMaxAge: "reachable tbl \<Longrightarrow> reachable (snd (ExpireDiskMaxAge now maxAge tbl))"
| r_FlushMemory: "reachable tbl \<Longrightarrow> reachable (FlushMemory tbl)"
| r_FlushDisk: "reachable tbl \<Longrightarrow> reachable (FlushDisk tbl)"
| r_FlushMemoryAndDisk: "reachable tbl \<Longrightarrow> reachable (FlushMemoryAndDisk tbl)"
| r_loadCache: "reachable tbl \<Longrightarrow> reachable (loadCache t now maxAge tbl)"
| r_KeepAlive:
    "reachable tbl \<Longrightarrow> map_of (items tbl) k = Some r
     \<Longrightarrow> reachable (tbl\<lparr>items := AList.update k (KeepAlive t r) (items tbl)\<rparr>)"
| r_SetAboutToExpireCallback:
    "reachable tbl \<Longrightarrow> map_of (items tbl) k = Some r
     \<Longrightarrow> reachable (tbl\<lparr>items := AList.update k (SetAboutToExpireCallback f r) (items tbl)\<rparr>)"

section \<open>Notions of the specification\<close>

text \<open>
  The remaining life of an item at a clock reading, \<open>TTL - (now - accessedOn)\<close> as a
  number, and when memory expiry is to drop the item.
\<close>

definition remaining :: "int \<Rightarrow> 'v CacheItem \<Rightarrow> int" where
  "remaining now item = sint (lifeSpan item) - (now - accessedOn item)"

definition expired :: "int \<Rightarrow> 'v CacheItem \<Rightarrow> bool" where
  "expired now item = (lifeSpan item \<noteq> 0 \<and> remaining now item \<le> 0)"


text \<open>The rules for a key, in the words of the specification.\<close>

definition validKey :: "string \<Rightarrow> bool" where
  "validKey k =
     (k \<noteq> [] \<and> take 1 k \<noteq> ''.'' \<and>
      list_all (\<lambda>c. c \<notin> set k)
        [CHR ''/'', CHR 0x5C, CHR ''<'', CHR ''>'', CHR '':'', CHR 0x22, CHR ''|'', CHR ''?'',
         CHR ''*'', CHR 0x00])"

text \<open>
  The item \<^verbatim>\<open>Get\<close> considers when the key is not in memory: the one from disk when
  there is one, and otherwise the one of the data loader when a loader is configured.
\<close>

definition candidate ::
  "int \<Rightarrow> string \<Rightarrow> 'v option list \<Rightarrow> 'v CacheTable \<Rightarrow> 'v CacheItem option" where
  "candidate t k args tbl =
     (case diskLoader t k tbl of
        Some i \<Rightarrow> Some i
      | None \<Rightarrow> (case dataLoader tbl of None \<Rightarrow> None | Some loader \<Rightarrow> loader k args))"

text \<open>
  When the expiry evaluation inside \<^verbatim>\<open>add\<close> drops the item that \<^verbatim>\<open>add\<close> has just
  stored: the TTL is positive, no sweep is scheduled or the scheduled one comes later
  than the TTL, and the TTL has run out since the item was accessed.
\<close>

definition droppedByAdd :: "int \<Rightarrow> 'v CacheItem \<Rightarrow> 'v CacheTable \<Rightarrow> bool" where
  "droppedByAdd now item tbl =
     (0 <s lifeSpan item
      \<and> (cleanupInterval tbl = 0 \<or> lifeSpan item <s cleanupInterval tbl)
      \<and> lifeSpan item \<le>s Sub now (accessedOn item))"

text \<open>Every entry of the map is stored under the key of its item.\<close>

definition keysMatch :: "'v CacheTable \<Rightarrow> bool" where
  "keysMatch tbl = list_all (\<lambda>(k, item). key item = k) (items tbl)"

text \<open>
  The value of a hexadecimal digit, \<open>0\<close> to \<open>9\<close> and \<open>a\<close> to \<open>f\<close> (16 for any other
  character), and the number that a string of digits denotes.
\<close>

definition hexval :: "char \<Rightarrow> nat" where
  "hexval c =
     (let n = of_char c :: nat
      in if 48 \<le> n \<and> n \<le> 57 then n - 48
         else if 97 \<le> n \<and> n \<le> 102 then n - 87
         else 16)"

definition decodeHex :: "string \<Rightarrow> nat" where
  "decodeHex s = foldl (\<lambda>a c. 16 * a + hexval c) 0 s"

section \<open>Example tables\<close>

text \<open>
  A table of single bytes: a value is serialized as the one byte it is. The digests are
  those of MD5 for the keys used below; \<open>exLongKey\<close> is a valid key of 256 bytes.
\<close>

definition exToBytes :: "byte option \<Rightarrow> byte list option" where
  "exToBytes d = (case d of None \<Rightarrow> None | Some v \<Rightarrow> Some [v])"

definition exFromBytes :: "byte list \<Rightarrow> byte option" where
  "exFromBytes bs = (case bs of [b] \<Rightarrow> Some b | _ \<Rightarrow> None)"

definition exLongKey :: string where
  "exLongKey = replicate 256 (CHR ''a'')"

definition exMd5 :: "string \<Rightarrow> 128 word" where
  "exMd5 k =
     (if k = ''a'' then 0x0cc175b9c0f1b6a831c399e269772661
      else if k = ''0/cc/a'' then 0xcb50bd9d021961dcccb52d7447672b41
      else if k = ''.a'' then 0x51be3512c32becf5c3cb2669da2620f7
      else if k = ''b'' then 0x92eb5ffee6ae2fec3ad71c777531578f
      else if k = exLongKey then 0x81109eec5aa1a284fb5327b10e9c16b9
      else 0xd41d8cd98f00b204e9800998ecf8427e)"

definition exConfig :: "duration \<Rightarrow> byte CacheTableConfig" where
  "exConfig ttl =
     \<lparr>Name = ''t'', ExpiryTime = ttl, ToBytes = Some exToBytes, FromBytes = exFromBytes,
      StartupOptions = 4, DiskExpiryTime = 0, DiscExpiryInterval = 0, PersistQueueSize = 0,
      DataLoader = None, AddItem = False, DeleteItem = False\<rparr>"

text \<open>
  The started table \<^verbatim>\<open>cache/t\<close> with default TTL \<open>ttl\<close> over the files \<open>fs\<close> and the
  directories that lead to them.
\<close>

definition ancestorDirs :: "string list \<Rightarrow> string list" where
  "ancestorDirs ps = remdups (concat (map (\<lambda>p. butlast (rawPrefixes p)) ps))"

definition exTable :: "duration \<Rightarrow> (string \<times> fileInfo) list \<Rightarrow> byte CacheTable" where
  "exTable ttl fs =
     snd (start (AddCache ''cache'' exToBytes exMd5 fs (ancestorDirs (map fst fs)) (exConfig ttl)))"

text \<open>
  A table holding four items at the clock reading 20: one without TTL, one whose TTL of
  10 ran out, and two with 10 and 35 left.
\<close>

definition exItem :: "string \<Rightarrow> duration \<Rightarrow> int \<Rightarrow> byte CacheItem" where
  "exItem k ls t = NewCacheItem t k ls (Some 7)"


text \<open>
  The table after \<^verbatim>\<open>Add("a", 7)\<close> at time 0 and one round of the worker at time 5: the
  item is in memory and its file is on disk.
\<close>

definition exStoredTable :: "byte CacheTable" where
  "exStoredTable = persistWorker 5 (snd (Add 0 0 ''a'' (Some 7) (exTable 50 [])))"

text \<open>A table whose serializer fails on every value.\<close>

definition exNoBytesTable :: "byte CacheTable" where
  "exNoBytesTable = (exTable 50 [])\<lparr>toBytes := (\<lambda>d. None)\<rparr>"

text \<open>
  Tables over one file for the key \<^verbatim>\<open>a\<close>, holding the byte 7: with TTL \<open>ttl\<close>, and with
  TTL 0 and a data loader that supplies a valid item for every key.
\<close>

definition exFileTable :: "duration \<Rightarrow> byte CacheTable" where
  "exFileTable ttl = exTable ttl [(''cache/t/0/cc/a'', \<lparr>content = [7], modTime = 0\<rparr>)]"

definition exLoader :: "string \<Rightarrow> byte option list \<Rightarrow> byte CacheItem option" where
  "exLoader k args = Some (NewCacheItem 1 k 50 (Some 9))"

definition exLoaderTable :: "byte CacheTable" where
  "exLoaderTable = (exFileTable 0)\<lparr>dataLoader := Some exLoader\<rparr>"


text \<open>
  The table after \<^verbatim>\<open>Add\<close> of the long key, one round of the worker, which makes the
  two shard directories and fails to write the file, and \<^verbatim>\<open>DeleteFromMemory\<close> of the
  key: the key is neither in memory nor on disk.
\<close>

definition exLongTable :: "byte CacheTable" where
  "exLongTable =
     DeleteFromMemory exLongKey (persistWorker 1 (snd (Add 0 0 exLongKey (Some 7) (exTable 50 []))))"

section \<open>Auxiliary notions\<close>

text \<open>The test by which the expiry loop deletes an item, and the keys it deletes.\<close>

definition expiresNow :: "int \<Rightarrow> 'v CacheItem \<Rightarrow> bool" where
  "expiresNow now item = (lifeSpan item \<noteq> 0 \<and> lifeSpan item \<le>s Sub now (accessedOn item))"

definition expiredKeys :: "int \<Rightarrow> (string \<times> 'v CacheItem) list \<Rightarrow> string set" where
  "expiredKeys now xs = set (map fst (filter (\<lambda>p. expiresNow now (snd p)) xs))"

text \<open>The table after the first steps of \<^verbatim>\<open>add\<close>: the item stored, the callback called.\<close>

definition addStored :: "'v CacheItem \<Rightarrow> 'v CacheTable \<Rightarrow> 'v CacheTable" where
  "addStored item tbl =
     (let tbl1 = tbl\<lparr>items := AList.update (key item) item (items tbl)\<rparr>
      in if addItem tbl1 then tbl1\<lparr>events := events tbl1 @ [AddItemCalled (key item)]\<rparr> else tbl1)"

text \<open>What a Go map whose entries are stored under their own keys looks like.\<close>

definition wellKeyed :: "(string \<times> 'v CacheItem) list \<Rightarrow> bool" where
  "wellKeyed al = (distinct (map fst al) \<and> list_all (\<lambda>(k, item). key item = k) al)"


text \<open>The value of \<^verbatim>\<open>smallestDuration\<close> after the expiry loop over \<open>xs\<close>, begun at \<open>sm\<close>.\<close>

fun smallestFrom :: "int \<Rightarrow> (string \<times> 'v CacheItem) list \<Rightarrow> duration \<Rightarrow> duration" where
  "smallestFrom now [] sm = sm"
| "smallestFrom now ((k, item) # rest) sm =
     smallestFrom now rest
       (if expiresNow now item \<or> lifeSpan item = 0 then sm
        else if sm = 0 \<or> lifeSpan item - Sub now (accessedOn item) <s sm
        then lifeSpan item - Sub now (accessedOn item) else sm)"

section \<open>Memory expiry\<close>

lemma delete_shape:
  "\<exists>ev. delete k tbl = tbl\<lparr>items := AList.delete k (items tbl), events := ev\<rparr>"
proof (cases "map_of (items tbl) k")
  case None
  then have "k \<notin> fst ` set (items tbl)"
    by (simp add: map_of_eq_None_iff)
  then have "AList.delete k (items tbl) = items tbl"
    by simp
  with None have "delete k tbl = tbl\<lparr>items := AList.delete k (items tbl), events := events tbl\<rparr>"
    by (simp add: delete_def)
  then show ?thesis by blast
next
  case (Some r)
  show ?thesis
  proof (cases "\<not> deleteItem tbl \<and> \<not> aboutToExpire r")
    case True
    with Some have "delete k tbl = tbl\<lparr>items := AList.delete k (items tbl), events := events tbl\<rparr>"
      by (simp add: delete_def)
    then show ?thesis by blast
  next
    case False
    with Some have "delete k tbl = tbl\<lparr>items := AList.delete k (items tbl), events := events tbl
                         @ (if deleteItem tbl then [DeleteItemCalled (key r)] else [])
                         @ (if aboutToExpire r then [AboutToExpireCalled k] else [])\<rparr>"
      by (simp add: delete_def)
    then show ?thesis by blast
  qed
qed

lemma items_delete: "items (delete k tbl) = AList.delete k (items tbl)"
proof -
  obtain ev where "delete k tbl = tbl\<lparr>items := AList.delete k (items tbl), events := ev\<rparr>"
    using delete_shape by blast
  then show ?thesis by simp
qed

lemma expireMemory_loop_Cons:
  "expireMemory_loop now ((k, item) # rest) (tbl, sm) =
     (if expiresNow now item then expireMemory_loop now rest (delete k tbl, sm)
      else expireMemory_loop now rest
             (tbl, if lifeSpan item = 0 then sm
                   else if sm = 0 \<or> lifeSpan item - Sub now (accessedOn item) <s sm
                   then lifeSpan item - Sub now (accessedOn item) else sm))"
  by (simp add: expiresNow_def)

lemma expireMemory_loop_shape:
  "\<exists>ev. fst (expireMemory_loop now xs (tbl, sm)) =
        tbl\<lparr>items := filter (\<lambda>p. fst p \<notin> expiredKeys now xs) (items tbl), events := ev\<rparr>"
proof (induction xs arbitrary: tbl sm)
  case Nil
  show ?case by (rule exI [of _ "events tbl"]) (simp add: expiredKeys_def)
next
  case (Cons x xs)
  obtain k item where x: "x = (k, item)" by (cases x)
  show ?case
  proof (cases "expiresNow now item")
    case True
    obtain ev1 where d: "delete k tbl = tbl\<lparr>items := AList.delete k (items tbl), events := ev1\<rparr>"
      using delete_shape by blast
    obtain ev2 where l: "fst (expireMemory_loop now xs (delete k tbl, sm)) =
        (delete k tbl)\<lparr>items := filter (\<lambda>p. fst p \<notin> expiredKeys now xs) (items (delete k tbl)), events := ev2\<rparr>"
      using Cons.IH by blast
    have e: "expiredKeys now (x # xs) = insert k (expiredKeys now xs)"
      using True x by (simp add: expiredKeys_def)
    have "filter (\<lambda>p. fst p \<notin> expiredKeys now xs) (AList.delete k (items tbl))
          = filter (\<lambda>p. fst p \<notin> expiredKeys now (x # xs)) (items tbl)"
      unfolding e AList.delete_eq filter_filter by (rule filter_cong) auto
    with d l have "fst (expireMemory_loop now xs (delete k tbl, sm)) =
        tbl\<lparr>items := filter (\<lambda>p. fst p \<notin> expiredKeys now (x # xs)) (items tbl), events := ev2\<rparr>"
      by simp
    moreover have "expireMemory_loop now (x # xs) (tbl, sm) = expireMemory_loop now xs (delete k tbl, sm)"
      using True unfolding x expireMemory_loop_Cons by simp
    ultimately show ?thesis by (intro exI [of _ ev2]) simp
  next
    case False
    have e: "expiredKeys now (x # xs) = expiredKeys now xs"
      using False x by (simp add: expiredKeys_def)
    define sm' where "sm' = (if lifeSpan item = 0 then sm
                   else if sm = 0 \<or> lifeSpan item - Sub now (accessedOn item) <s sm
                   then lifeSpan item - Sub now (accessedOn item) else sm)"
    have "expireMemory_loop now (x # xs) (tbl, sm) = expireMemory_loop now xs (tbl, sm')"
      using False unfolding x sm'_def by (simp only: expireMemory_loop_Cons if_False)
    then show ?thesis using Cons.IH [of tbl sm'] by (simp only: e)
  qed
qed

lemma expireMemory_loop_smallest:
  "snd (expireMemory_loop now xs (tbl, sm)) = smallestFrom now xs sm"
proof (induction xs arbitrary: tbl sm)
  case Nil
  show ?case by simp
next
  case (Cons x xs)
  obtain k item where x: "x = (k, item)" by (cases x)
  show ?case
  proof (cases "expiresNow now item")
    case True
    then show ?thesis
      unfolding x expireMemory_loop_Cons using Cons.IH [of "delete k tbl" sm] by simp
  next
    case False
    define sm' where "sm' = (if lifeSpan item = 0 then sm
                   else if sm = 0 \<or> lifeSpan item - Sub now (accessedOn item) <s sm
                   then lifeSpan item - Sub now (accessedOn item) else sm)"
    have l: "expireMemory_loop now (x # xs) (tbl, sm) = expireMemory_loop now xs (tbl, sm')"
      using False unfolding x sm'_def by (simp only: expireMemory_loop_Cons if_False)
    have s: "smallestFrom now (x # xs) sm = smallestFrom now xs sm'"
      using False unfolding x sm'_def by auto
    show ?thesis
      unfolding l s by (rule Cons.IH)
  qed
qed

lemma expireMemory_shape:
  "\<exists>ev. expireMemory now tbl =
     tbl\<lparr>cleanupTimer := (if 0 <s smallestFrom now (items tbl) 0
                           then Some (smallestFrom now (items tbl) 0) else None),
         items := filter (\<lambda>p. fst p \<notin> expiredKeys now (items tbl)) (items tbl),
         events := ev,
         cleanupInterval := smallestFrom now (items tbl) 0\<rparr>"
proof -
  let ?t1 = "stopMemoryExpiryTimer tbl"
  have i1: "items ?t1 = items tbl"
    by (simp add: stopMemoryExpiryTimer_def)
  obtain ev where f: "fst (expireMemory_loop now (items tbl) (?t1, 0)) =
        ?t1\<lparr>items := filter (\<lambda>p. fst p \<notin> expiredKeys now (items tbl)) (items ?t1), events := ev\<rparr>"
    using expireMemory_loop_shape [of now "items tbl" ?t1 0] by blast
  have s: "snd (expireMemory_loop now (items tbl) (?t1, 0)) = smallestFrom now (items tbl) 0"
    by (rule expireMemory_loop_smallest)
  obtain t2 sm where l: "expireMemory_loop now (items tbl) (?t1, 0) = (t2, sm)"
    by (cases "expireMemory_loop now (items tbl) (?t1, 0)")
  have t2: "t2 = ?t1\<lparr>items := filter (\<lambda>p. fst p \<notin> expiredKeys now (items tbl)) (items tbl), events := ev\<rparr>"
    using f l i1 by simp
  have sm: "sm = smallestFrom now (items tbl) 0"
    using s l by simp
  show ?thesis
    unfolding expireMemory_def i1 l Let_def
    by (intro exI [of _ ev]) (simp add: sm t2 stopMemoryExpiryTimer_def)
qed

lemma filter_expiredKeys:
  assumes "distinct (map fst al)"
  shows "filter (\<lambda>p. fst p \<notin> expiredKeys now al) al = filter (\<lambda>(k, item). \<not> expiresNow now item) al"
proof (rule filter_cong [OF refl])
  fix p assume p: "p \<in> set al"
  have "fst p \<in> expiredKeys now al \<longleftrightarrow> expiresNow now (snd p)"
  proof
    assume "fst p \<in> expiredKeys now al"
    then obtain q where q: "q \<in> set al" "expiresNow now (snd q)" "fst q = fst p"
      by (auto simp: expiredKeys_def)
    with assms p have "q = p"
      by (metis eq_key_imp_eq_value prod.collapse)
    with q show "expiresNow now (snd p)" by simp
  next
    assume "expiresNow now (snd p)"
    with p show "fst p \<in> expiredKeys now al"
      by (auto simp: expiredKeys_def intro!: image_eqI [of _ _ p])
  qed
  then show "(fst p \<notin> expiredKeys now al) = (case p of (k, item) \<Rightarrow> \<not> expiresNow now item)"
    by (cases p) simp
qed

lemma items_expireMemory:
  assumes "distinct (map fst (items tbl))"
  shows "items (expireMemory now tbl) = filter (\<lambda>(k, item). \<not> expiresNow now item) (items tbl)"
proof -
  obtain ev where "expireMemory now tbl =
     tbl\<lparr>cleanupTimer := (if 0 <s smallestFrom now (items tbl) 0
                           then Some (smallestFrom now (items tbl) 0) else None),
         items := filter (\<lambda>p. fst p \<notin> expiredKeys now (items tbl)) (items tbl),
         events := ev,
         cleanupInterval := smallestFrom now (items tbl) 0\<rparr>"
    using expireMemory_shape by blast
  then have "items (expireMemory now tbl) = filter (\<lambda>p. fst p \<notin> expiredKeys now (items tbl)) (items tbl)"
    by simp
  then show ?thesis using filter_expiredKeys [OF assms] by simp
qed


lemma expireMemory_frame:
  "toBytes (expireMemory now tbl) = toBytes tbl"
  "persistQueue (expireMemory now tbl) = persistQueue tbl"
  "disk (expireMemory now tbl) = disk tbl"
  "dirs (expireMemory now tbl) = dirs tbl"
  "basePath (expireMemory now tbl) = basePath tbl"
  "md5sum (expireMemory now tbl) = md5sum tbl"
  "expiryTime (expireMemory now tbl) = expiryTime tbl"
  "fromBytes (expireMemory now tbl) = fromBytes tbl"
  "dataLoader (expireMemory now tbl) = dataLoader tbl"
  "diskExpiryTimer (expireMemory now tbl) = diskExpiryTimer tbl"
  "diskExpiryInterval (expireMemory now tbl) = diskExpiryInterval tbl"
proof -
  obtain ev where "expireMemory now tbl =
     tbl\<lparr>cleanupTimer := (if 0 <s smallestFrom now (items tbl) 0
                           then Some (smallestFrom now (items tbl) 0) else None),
         items := filter (\<lambda>p. fst p \<notin> expiredKeys now (items tbl)) (items tbl),
         events := ev,
         cleanupInterval := smallestFrom now (items tbl) 0\<rparr>"
    using expireMemory_shape by blast
  then show
    "toBytes (expireMemory now tbl) = toBytes tbl"
    "persistQueue (expireMemory now tbl) = persistQueue tbl"
    "disk (expireMemory now tbl) = disk tbl"
    "dirs (expireMemory now tbl) = dirs tbl"
    "basePath (expireMemory now tbl) = basePath tbl"
    "md5sum (expireMemory now tbl) = md5sum tbl"
    "expiryTime (expireMemory now tbl) = expiryTime tbl"
    "fromBytes (expireMemory now tbl) = fromBytes tbl"
    "dataLoader (expireMemory now tbl) = dataLoader tbl"
    "diskExpiryTimer (expireMemory now tbl) = diskExpiryTimer tbl"
    "diskExpiryInterval (expireMemory now tbl) = diskExpiryInterval tbl"
    by simp_all
qed

lemma sint_maxDuration: "sint maxDuration = 2 ^ 63 - 1"
  by (simp add: maxDuration_def)

lemma sint_minDuration: "sint minDuration = - (2 ^ 63)"
  by (simp add: minDuration_def)

lemma sint_range: "- (2 ^ 63) \<le> sint (w :: duration)" "sint (w :: duration) < 2 ^ 63"
  using sint_ge [of w] sint_lt [of w] by simp_all

lemma sint_word_of_int_64:
  "- (2 ^ 63) \<le> d \<Longrightarrow> d < 2 ^ 63 \<Longrightarrow> sint (word_of_int d :: duration) = d"
  by (simp add: sint_sbintrunc' signed_take_bit_int_eq_self)











section \<open>Adding and getting\<close>

lemma sint_Sub_clamp: "sint (Sub t u) = max (- (2 ^ 63)) (min (t - u) (2 ^ 63 - 1))"
proof (cases "t - u > 2 ^ 63 - 1")
  case True
  then show ?thesis
    by (simp add: Sub_def sint_maxDuration)
next
  case False
  show ?thesis
  proof (cases "t - u < - (2 ^ 63)")
    case True
    then show ?thesis
      using False by (simp add: Sub_def sint_maxDuration sint_minDuration)
  next
    case inr: False
    with False have "Sub t u = word_of_int (t - u)"
      by (simp add: Sub_def sint_maxDuration sint_minDuration del: of_int_diff)
    moreover have "sint (word_of_int (t - u) :: duration) = t - u"
      using False inr by (intro sint_word_of_int_64) simp_all
    ultimately show ?thesis
      using False inr by simp
  qed
qed

lemma fst_add: "fst (add now item tbl) = item"
  by (simp add: add_def Let_def)

lemma persistQueue_add:
  "persistQueue (snd (add now item tbl)) =
     persistQueue tbl @ (case toBytes tbl (data item) of None \<Rightarrow> []
                         | Some b \<Rightarrow> [PersistEntry (key item) b])"
  by (simp add: add_def Let_def expireMemory_frame split: option.splits)

lemma disk_add: "disk (snd (add now item tbl)) = disk tbl"
  by (simp add: add_def Let_def expireMemory_frame split: option.splits)

lemma dirs_add: "dirs (snd (add now item tbl)) = dirs tbl"
  by (simp add: add_def Let_def expireMemory_frame split: option.splits)

lemma items_addStored: "items (addStored item tbl) = AList.update (key item) item (items tbl)"
  by (simp add: addStored_def Let_def)

lemma items_add:
  "items (snd (add now item tbl)) =
     (if 0 <s lifeSpan item \<and> (cleanupInterval tbl = 0 \<or> lifeSpan item <s cleanupInterval tbl)
      then items (expireMemory now (addStored item tbl))
      else AList.update (key item) item (items tbl))"
  by (cases "0 <s lifeSpan item"; cases "cleanupInterval tbl = 0";
      cases "lifeSpan item <s cleanupInterval tbl"; cases "addItem tbl")
     (simp_all add: add_def addStored_def Let_def expireMemory_frame split: option.splits)

lemma map_of_filter_distinct:
  "distinct (map fst al) \<Longrightarrow>
   map_of (filter P al) k = (case map_of al k of None \<Rightarrow> None | Some v \<Rightarrow> if P (k, v) then Some v else None)"
proof (induction al)
  case Nil
  then show ?case by simp
next
  case (Cons p al)
  obtain k' v' where p: "p = (k', v')" by (cases p)
  from Cons.prems have d: "distinct (map fst al)" and n: "k' \<notin> fst ` set al"
    by (simp_all add: p)
  from n have none: "map_of al k' = None"
    by (simp add: map_of_eq_None_iff)
  from n have none': "map_of (filter P al) k' = None"
    by (auto simp: map_of_eq_None_iff)
  show ?case
    using Cons.IH [OF d] none none' by (simp add: p)
qed

lemma map_of_items_add:
  assumes "distinct (map fst (items tbl))"
  shows "map_of (items (snd (add now item tbl))) (key item)
           = (if droppedByAdd now item tbl then None else Some item)"
proof -
  let ?al = "AList.update (key item) item (items tbl)"
  have d: "distinct (map fst ?al)"
    using assms by (rule distinct_update)
  have m: "map_of ?al (key item) = Some item"
    by (simp add: update_conv')
  show ?thesis
  proof (cases "0 <s lifeSpan item \<and> (cleanupInterval tbl = 0 \<or> lifeSpan item <s cleanupInterval tbl)")
    case True
    then have nz: "lifeSpan item \<noteq> 0" by auto
    let ?t = "addStored item tbl"
    have "items (snd (add now item tbl)) = items (expireMemory now ?t)"
      unfolding items_add using True by (rule if_P)
    also have "\<dots> = filter (\<lambda>(k, i). \<not> expiresNow now i) ?al"
      using items_expireMemory [of ?t now] d by (simp add: items_addStored)
    finally have "map_of (items (snd (add now item tbl))) (key item)
                  = (if expiresNow now item then None else Some item)"
      using m by (simp add: map_of_filter_distinct [OF d])
    moreover have "droppedByAdd now item tbl \<longleftrightarrow> expiresNow now item"
      using True nz by (simp add: droppedByAdd_def expiresNow_def)
    ultimately show ?thesis by simp
  next
    case False
    have "items (snd (add now item tbl)) = ?al"
      unfolding items_add using False by (rule if_not_P)
    moreover have "\<not> droppedByAdd now item tbl"
      using False by (auto simp: droppedByAdd_def)
    ultimately show ?thesis using m by simp
  qed
qed

lemma not_dropped_New:
  assumes "now - t < sint ls"
  shows "\<not> droppedByAdd now (NewCacheItem t k ls d) tbl"
proof (cases "0 <s ls")
  case True
  then have "0 < sint ls" by (simp add: word_sless_alt)
  then have "sint (Sub now t) < sint ls"
    using assms sint_range [of ls] by (simp add: sint_Sub_clamp)
  then show ?thesis
    by (simp add: droppedByAdd_def NewCacheItem_def word_sle_eq)
next
  case False
  then show ?thesis
    by (simp add: droppedByAdd_def NewCacheItem_def)
qed

lemma IsValid_iff:
  "IsValid (Some item) \<longleftrightarrow> validKey (key item) \<and> data item \<noteq> None \<and> 0 <s lifeSpan item"
  by (cases "key item")
     (auto simp: validKey_def ContainsAny_def forbidden_def list_ex_iff)

lemma AddExpiry_invalid:
  "\<not> IsValid (Some (NewCacheItem t k ls d)) \<Longrightarrow> AddExpiry t now k ls d tbl = (None, tbl)"
  by (simp add: AddExpiry_def Let_def)

lemma AddExpiry_valid:
  assumes "IsValid (Some (NewCacheItem t k ls d))"
  shows "AddExpiry t now k ls d tbl =
           (Some (NewCacheItem t k ls d), snd (add now (NewCacheItem t k ls d) tbl))"
proof -
  obtain it tbl' where a: "add now (NewCacheItem t k ls d) tbl = (it, tbl')"
    by (cases "add now (NewCacheItem t k ls d) tbl")
  then have "it = NewCacheItem t k ls d"
    using fst_add [of now "NewCacheItem t k ls d" tbl] by simp
  with a assms show ?thesis
    by (simp add: AddExpiry_def Let_def del: IsValid.simps)
qed

lemma Get_memory:
  "map_of (items tbl) k = Some r \<Longrightarrow>
   Get t now k args tbl = (Inr (KeepAlive t r), tbl\<lparr>items := AList.update k (KeepAlive t r) (items tbl)\<rparr>)"
  by (simp add: Get_def Let_def)

lemma Get_miss:
  assumes "map_of (items tbl) k = None"
  shows "Get t now k args tbl =
     (case candidate t k args tbl of
        Some i \<Rightarrow> if IsValid (Some i) then (Inr i, snd (add now i tbl))
                  else (Inl ErrKeyNotFound, tbl)
      | None \<Rightarrow> (Inl ErrKeyNotFound, tbl))"
proof -
  have c: "(case (diskLoader t k tbl, dataLoader tbl) of
              (None, Some loader) \<Rightarrow> loader k args
            | _ \<Rightarrow> diskLoader t k tbl) = candidate t k args tbl"
    by (simp add: candidate_def split: option.splits)
  have a: "\<And>i. (case add now i tbl of (it, tbl') \<Rightarrow> (Inr it :: error + 'a CacheItem, tbl'))
            = (Inr i, snd (add now i tbl))"
    using fst_add by (simp add: split_beta)
  show ?thesis
    unfolding Get_def Let_def c a using assms
    by (simp del: IsValid.simps split: option.splits)
qed

lemma NotFoundAddExpiry_present:
  "Exists k tbl \<Longrightarrow> NotFoundAddExpiry t now k ls d tbl = (False, tbl)"
  by (auto simp: Exists_def NotFoundAddExpiry_def Let_def split: if_splits)

lemma NotFoundAddExpiry_absent:
  "\<not> Exists k tbl \<Longrightarrow>
   NotFoundAddExpiry t now k ls d tbl = (True, snd (add now (NewCacheItem t k ls d) tbl))"
  by (auto simp: Exists_def NotFoundAddExpiry_def Let_def split: if_splits prod.splits)

lemma AccessCount_KeepAlive_New:
  "AccessCount (KeepAlive t' (NewCacheItem t k ls d)) = 1"
  by (simp add: AccessCount_def KeepAlive_def NewCacheItem_def)

section \<open>The invariant of the in-memory map\<close>

lemma items_withFs [simp]: "items (withFs tbl fs) = items tbl"
  by (simp add: withFs_def)

lemma list_all_update:
  "list_all P al \<Longrightarrow> P (k, v) \<Longrightarrow> list_all P (AList.update k v al)"
  by (induction al) auto

lemma walk_loop_invariant:
  assumes step: "\<And>k p i tb a. P tb \<Longrightarrow> P (fst (f k p i (tb, a)))"
  shows "P tbl \<Longrightarrow> P (fst (walk_loop f ps (tbl, acc)))"
proof (induction ps arbitrary: tbl acc)
  case Nil
  then show ?case by simp
next
  case (Cons path ps)
  show ?case
  proof (cases "map_of (disk tbl) path")
    case None
    then show ?thesis using Cons by simp
  next
    case (Some info)
    obtain tb a where v: "visit f path info (tbl, acc) = (tb, a)"
      by (cases "visit f path info (tbl, acc)")
    have "P (fst (visit f path info (tbl, acc)))"
      using step [OF Cons.prems] Cons.prems by (simp add: visit_def Let_def)
    then have "P tb" using v by simp
    then show ?thesis
      using Cons.IH [of tb a] Some v by simp
  qed
qed

lemma walk_invariant:
  assumes step: "\<And>k p i tb a. P tb \<Longrightarrow> P (fst (f k p i (tb, a)))"
    and ev: "\<And>tb e. P tb \<Longrightarrow> P (tb\<lparr>events := e\<rparr>)"
    and "P tbl"
  shows "P (fst (walk f tbl acc))"
proof (cases "Stat (fsOf tbl) (basePath tbl)")
  case (Inl e)
  then show ?thesis using ev [OF assms(3)] by (simp add: walk_def)
next
  case (Inr ck)
  obtain c k where ck: "ck = (c, k)" by (cases ck)
  show ?thesis
  proof (cases "k = KDir")
    case True
    then show ?thesis
      using Inr ck walk_loop_invariant [of P f, OF step assms(3)] by (simp add: walk_def)
  next
    case False
    show ?thesis
    proof (cases "map_of (disk tbl) c")
      case None
      then show ?thesis using Inr ck False assms(3) by (simp add: walk_def)
    next
      case (Some info)
      have "P (fst (visit f (basePath tbl) info (tbl, acc)))"
        using step [OF assms(3)] assms(3) by (simp add: visit_def Let_def)
      then show ?thesis using Inr ck False Some by (simp add: walk_def)
    qed
  qed
qed

lemma wellKeyed_Nil: "wellKeyed []"
  by (simp add: wellKeyed_def)

lemma wellKeyed_update:
  "wellKeyed al \<Longrightarrow> key item = k \<Longrightarrow> wellKeyed (AList.update k item al)"
  by (simp add: wellKeyed_def distinct_update list_all_update)

lemma wellKeyed_filter: "wellKeyed al \<Longrightarrow> wellKeyed (filter P al)"
  by (simp add: wellKeyed_def distinct_map_filter list_all_iff)

lemma wellKeyed_delete: "wellKeyed al \<Longrightarrow> wellKeyed (AList.delete k al)"
  by (simp add: AList.delete_eq wellKeyed_filter)

lemma wellKeyed_lookup: "wellKeyed al \<Longrightarrow> map_of al k = Some r \<Longrightarrow> key r = k"
  by (auto simp: wellKeyed_def list_all_iff dest: map_of_SomeD)

lemma wk_delete: "wellKeyed (items tbl) \<Longrightarrow> wellKeyed (items (delete k tbl))"
  by (simp add: items_delete wellKeyed_delete)

lemma wk_expireMemory:
  assumes "wellKeyed (items tbl)"
  shows "wellKeyed (items (expireMemory now tbl))"
proof -
  have "items (expireMemory now tbl) = filter (\<lambda>(k, item). \<not> expiresNow now item) (items tbl)"
    using assms by (simp add: items_expireMemory wellKeyed_def)
  then show ?thesis using assms by (simp add: wellKeyed_filter)
qed

lemma wk_add:
  assumes "wellKeyed (items tbl)"
  shows "wellKeyed (items (snd (add now item tbl)))"
proof -
  have u: "wellKeyed (AList.update (key item) item (items tbl))"
    using assms by (simp add: wellKeyed_update)
  then have "wellKeyed (items (expireMemory now (addStored item tbl)))"
    by (intro wk_expireMemory) (simp add: items_addStored)
  with u show ?thesis
    by (simp add: items_add)
qed

lemma wk_walk:
  assumes "\<And>k p i tb a. wellKeyed (items tb) \<Longrightarrow> wellKeyed (items (fst (f k p i (tb, a))))"
    and "wellKeyed (items tbl)"
  shows "wellKeyed (items (fst (walk f tbl acc)))"
  by (rule walk_invariant [where P = "\<lambda>tb. wellKeyed (items tb)"]) (use assms in simp_all)

lemma diskLoader_key: "diskLoader t k tbl = Some item \<Longrightarrow> key item = k"
  by (auto simp: diskLoader_def NewCreatedCacheItem_def split: option.splits)

lemma wk_DeleteFromMemoryAndDisk:
  "wellKeyed (items tbl) \<Longrightarrow> wellKeyed (items (DeleteFromMemoryAndDisk k tbl))"
  by (simp add: DeleteFromMemoryAndDisk_def Let_def wk_delete)

lemma wk_expireVisitor:
  "wellKeyed (items tb) \<Longrightarrow> wellKeyed (items (fst (expireVisitor e k p i (tb, a))))"
  by (simp add: expireVisitor_def wk_DeleteFromMemoryAndDisk)

lemma wk_flushVisitor:
  "wellKeyed (items tb) \<Longrightarrow> wellKeyed (items (fst (flushVisitor k p i (tb, a))))"
  by (simp add: flushVisitor_def)

lemma wk_loadVisitor:
  "wellKeyed (items tb) \<Longrightarrow> wellKeyed (items (fst (loadVisitor t m l k p i (tb, a))))"
  by (auto simp: loadVisitor_def wellKeyed_update diskLoader_key split: option.splits)

lemma wk_ExpireDiskMaxAge:
  assumes "wellKeyed (items tbl)"
  shows "wellKeyed (items (snd (ExpireDiskMaxAge now maxAge tbl)))"
proof -
  have "wellKeyed (items (fst (walk (expireVisitor e) (stopDiskExpiryTimer tbl) (0::nat))))" for e
    using assms by (intro wk_walk wk_expireVisitor) (simp_all add: stopDiskExpiryTimer_def)
  then show ?thesis
    by (simp add: ExpireDiskMaxAge_def Let_def startDiskExpiryTimer_def split_beta)
qed

lemma wk_flushDisk:
  assumes "wellKeyed (items tbl)"
  shows "wellKeyed (items (flushDisk tbl))"
  unfolding flushDisk_def using assms by (intro wk_walk wk_flushVisitor)

lemma wk_loadCache:
  assumes "wellKeyed (items tbl)"
  shows "wellKeyed (items (loadCache t now maxAge tbl))"
proof -
  let ?m = "if 0 <s maxAge then - maxAge else maxAge"
  have "wellKeyed (items (fst (walk (loadVisitor t ?m (TimeAdd t ?m)) (stopDiskExpiryTimer tbl) ())))"
    using assms by (intro wk_walk wk_loadVisitor) (simp_all add: stopDiskExpiryTimer_def)
  then have "wellKeyed (items (startDiskExpiryTimer
               (fst (walk (loadVisitor t ?m (TimeAdd t ?m)) (stopDiskExpiryTimer tbl) ()))))"
    by (simp add: startDiskExpiryTimer_def)
  then show ?thesis
    unfolding loadCache_def Let_def by (rule wk_expireMemory)
qed

lemma wk_Get:
  assumes "wellKeyed (items tbl)"
  shows "wellKeyed (items (snd (Get t now k args tbl)))"
proof (cases "map_of (items tbl) k")
  case None
  show ?thesis
    using assms wk_add [OF assms]
    by (simp add: Get_miss [OF None] del: IsValid.simps split: option.splits)
next
  case (Some r)
  have "key (KeepAlive t r) = k"
    using wellKeyed_lookup [OF assms Some] by (simp add: KeepAlive_def)
  then show ?thesis
    using assms by (simp add: Get_memory [OF Some] wellKeyed_update)
qed

lemma wk_AddExpiry:
  assumes "wellKeyed (items tbl)"
  shows "wellKeyed (items (snd (AddExpiry t now k ls d tbl)))"
proof (cases "IsValid (Some (NewCacheItem t k ls d))")
  case True
  then show ?thesis using wk_add [OF assms] by (simp add: AddExpiry_valid del: IsValid.simps)
next
  case False
  then show ?thesis using assms by (simp add: AddExpiry_invalid del: IsValid.simps)
qed

lemma wk_NotFoundAddExpiry:
  assumes "wellKeyed (items tbl)"
  shows "wellKeyed (items (snd (NotFoundAddExpiry t now k ls d tbl)))"
proof (cases "Exists k tbl")
  case True
  then show ?thesis using assms by (simp add: NotFoundAddExpiry_present)
next
  case False
  then show ?thesis using wk_add [OF assms] by (simp add: NotFoundAddExpiry_absent)
qed

lemma reachable_wellKeyed: "reachable tbl \<Longrightarrow> wellKeyed (items tbl)"
proof (induction rule: reachable.induct)
  case (r_AddCache dir ToJsonBytes h fs ds cfg)
  then show ?case by (simp add: AddCache_def wellKeyed_Nil)
next
  case (r_start tbl)
  then show ?case by (simp add: start_def Let_def startDiskExpiryTimer_def split_beta)
next
  case (r_stop tbl)
  then show ?case by (simp add: stop_def stopDiskExpiryTimer_def)
next
  case (r_persistWorker tbl t)
  then show ?case by (simp add: persistWorker_def persist_def Let_def split_beta split: list.splits)
next
  case (r_AddExpiry tbl t now k ls d)
  from r_AddExpiry.IH show ?case by (rule wk_AddExpiry)
next
  case (r_NotFoundAddExpiry tbl t now k ls d)
  from r_NotFoundAddExpiry.IH show ?case by (rule wk_NotFoundAddExpiry)
next
  case (r_Get tbl t now k args)
  from r_Get.IH show ?case by (rule wk_Get)
next
  case (r_DeleteFromMemory tbl k)
  from r_DeleteFromMemory.IH show ?case by (simp add: DeleteFromMemory_def wk_delete)
next
  case (r_DeleteFromMemoryAndDisk tbl k)
  from r_DeleteFromMemoryAndDisk.IH show ?case by (rule wk_DeleteFromMemoryAndDisk)
next
  case (r_expireMemory tbl now)
  from r_expireMemory.IH show ?case by (rule wk_expireMemory)
next
  case (r_ExpireDiskMaxAge tbl now maxAge)
  from r_ExpireDiskMaxAge.IH show ?case by (rule wk_ExpireDiskMaxAge)
next
  case (r_FlushMemory tbl)
  then show ?case
    by (simp add: FlushMemory_def flushMemory_def stopMemoryExpiryTimer_def wellKeyed_Nil)
next
  case (r_FlushDisk tbl)
  from r_FlushDisk.IH have "wellKeyed (items (flushDisk (stopDiskExpiryTimer tbl)))"
    by (intro wk_flushDisk) (simp add: stopDiskExpiryTimer_def)
  then show ?case by (simp add: FlushDisk_def startDiskExpiryTimer_def)
next
  case (r_FlushMemoryAndDisk tbl)
  have "wellKeyed (items (flushDisk (flushMemory (stopDiskExpiryTimer tbl))))"
    by (intro wk_flushDisk)
       (simp add: flushMemory_def stopMemoryExpiryTimer_def wellKeyed_Nil)
  then show ?case by (simp add: FlushMemoryAndDisk_def startDiskExpiryTimer_def)
next
  case (r_loadCache tbl t now maxAge)
  from r_loadCache.IH show ?case by (rule wk_loadCache)
next
  case (r_KeepAlive tbl k r t)
  have "key (KeepAlive t r) = k"
    using wellKeyed_lookup [OF r_KeepAlive.IH r_KeepAlive.hyps(2)] by (simp add: KeepAlive_def)
  then show ?case using r_KeepAlive.IH by (simp add: wellKeyed_update)
next
  case (r_SetAboutToExpireCallback tbl k r f)
  have "key (SetAboutToExpireCallback f r) = k"
    using wellKeyed_lookup [OF r_SetAboutToExpireCallback.IH r_SetAboutToExpireCallback.hyps(2)]
    by (simp add: SetAboutToExpireCallback_def)
  then show ?case using r_SetAboutToExpireCallback.IH by (simp add: wellKeyed_update)
qed

lemma reachable_distinct: "reachable tbl \<Longrightarrow> distinct (map fst (items tbl))"
  using reachable_wellKeyed [of tbl] by (simp add: wellKeyed_def)

section \<open>The disk layout and the walk\<close>

lemma length_hexdigest: "length (EncodeToString (Sum w)) = 32"
  by (simp add: EncodeToString_def Sum_def length_concat comp_def sum_list_triv)

lemma takeWhile_sep: "sep \<notin> set a \<Longrightarrow> takeWhile (\<lambda>x. x \<noteq> sep) (a @ sep # r) = a"
  by (induction a) auto

lemma dropWhile_sep: "sep \<notin> set a \<Longrightarrow> dropWhile (\<lambda>x. x \<noteq> sep) (a @ sep # r) = sep # r"
  by (induction a) auto

lemma SplitN_3:
  assumes "sep \<notin> set a" and "sep \<notin> set b"
  shows "SplitN (a @ sep # b @ sep # c) sep 3 = [a, b, c]"
  using assms by (simp add: numeral_3_eq_3 takeWhile_sep dropWhile_sep)

lemma walk_key_of_getFilePath:
  assumes "basePath tbl = dir @ PathSeparator @ nm"
    and "os_PathSeparator \<notin> set dir" and "os_PathSeparator \<notin> set nm"
  shows "SplitN (getFilePath tbl k) os_PathSeparator 3 =
           [dir, nm,
            take 1 (EncodeToString (Sum (md5sum tbl k))) @ PathSeparator
            @ take 2 (drop 1 (EncodeToString (Sum (md5sum tbl k)))) @ PathSeparator @ k]"
  using SplitN_3 [OF assms(2,3)]
  by (simp add: getFilePath_def getPath_def Let_def assms(1) PathSeparator_def)

lemma diskExpiryInterval_delete: "diskExpiryInterval (delete k tbl) = diskExpiryInterval tbl"
proof -
  obtain ev where "delete k tbl = tbl\<lparr>items := AList.delete k (items tbl), events := ev\<rparr>"
    using delete_shape by blast
  then show ?thesis by simp
qed

lemma diskExpiryInterval_expireVisitor:
  "diskExpiryInterval tb = c \<Longrightarrow> diskExpiryInterval (fst (expireVisitor e k p i (tb, a))) = c"
  by (simp add: expireVisitor_def DeleteFromMemoryAndDisk_def Let_def diskExpiryInterval_delete withFs_def)

lemma ExpireDiskMaxAge_rearms:
  "diskExpiryTimer (snd (ExpireDiskMaxAge now maxAge tbl)) = Some (diskExpiryInterval tbl)"
proof -
  have "diskExpiryInterval (fst (walk (expireVisitor e) (stopDiskExpiryTimer tbl) (0::nat)))
        = diskExpiryInterval tbl" for e
    by (rule walk_invariant [where P = "\<lambda>tb. diskExpiryInterval tb = diskExpiryInterval tbl"])
       (simp_all add: diskExpiryInterval_expireVisitor stopDiskExpiryTimer_def)
  then show ?thesis
    by (simp add: ExpireDiskMaxAge_def Let_def startDiskExpiryTimer_def split_beta)
qed

lemma Sum_Cons: "Sum w = ucast (drop_bit 120 w) # ucast (drop_bit 112 w) # drop 2 (Sum w)"
  by (simp add: Sum_def upt_rec numeral_eq_Suc)

lemma hexdigest_first:
  "take 3 (EncodeToString (Sum w)) =
     [hextable ! unat (drop_bit 4 (ucast (drop_bit 120 w) :: byte)),
      hextable ! unat ((ucast (drop_bit 120 w) :: byte) AND 0x0f),
      hextable ! unat (drop_bit 4 (ucast (drop_bit 112 w) :: byte))]"
  by (subst Sum_Cons) (simp add: EncodeToString_def)

lemma hi_nibble: "drop_bit 4 (ucast (drop_bit 120 (w :: 128 word)) :: byte) = ucast (drop_bit 124 w)"
  by (rule bit_word_eqI) (auto simp: bit_simps dest: bit_imp_le_length)

lemma lo_nibble: "(ucast (drop_bit 120 (w :: 128 word)) :: byte) AND 0x0f = ucast (drop_bit 120 w AND 0x0f)"
  by (rule bit_word_eqI) (auto simp: bit_simps)

lemma hi_nibble2: "drop_bit 4 (ucast (drop_bit 112 (w :: 128 word)) :: byte) = ucast (drop_bit 116 w AND 0x0f)"
proof -
  have m: "(0x0f :: 128 word) = mask 4" by (simp add: mask_eq_exp_minus_1)
  show ?thesis
    unfolding m by (rule bit_word_eqI) (auto simp: bit_simps)
qed

lemma unat_ucast_byte: "unat (x :: 128 word) < 256 \<Longrightarrow> unat (ucast x :: byte) = unat x"
  by (simp add: unsigned_ucast_eq take_bit_nat_eq_self_iff)

lemma unat_top_nibble: "unat (drop_bit 124 (w :: 128 word)) < 256"
proof -
  have e: "unat (drop_bit 124 w) = unat w div 2 ^ 124"
    by (simp only: unat_drop_bit_eq) (simp only: drop_bit_eq_div)
  have "unat w < 2 ^ 128"
    using unsigned_less [of w, where ?'a = nat] by simp
  then have "unat w div 2 ^ 124 < 16"
    by (simp add: less_mult_imp_div_less)
  then show ?thesis
    unfolding e by linarith
qed

lemma unat_and_15: "unat ((x :: 128 word) AND 0x0f) < 256"
proof -
  have "x AND 0x0f \<le> 0x0f"
    by (rule word_and_le1)
  then have "unat (x AND 0x0f) \<le> 15"
    by (simp add: word_le_nat_alt)
  then show ?thesis by simp
qed

lemma hexval_hextable: "n < 16 \<Longrightarrow> hexval (hextable ! n) = n"
proof -
  assume "n < 16"
  then have "n \<in> {0, 1, 2, 3, 4, 5, 6, 7, 8, 9, 10, 11, 12, 13, 14, 15}"
    by simp arith
  then show ?thesis
    by (auto simp: hextable_def hexval_def)
qed

lemma unat_hi_nibble: "unat (drop_bit 4 (v :: byte)) = unat v div 16"
  by (simp only: unat_drop_bit_eq) (simp add: drop_bit_eq_div)

lemma unat_lo_nibble: "unat ((v :: byte) AND 0x0f) = unat v mod 16"
proof -
  have m: "(0x0f :: byte) = mask 4" by (simp add: mask_eq_exp_minus_1)
  show ?thesis
    unfolding m
    by (simp only: flip: take_bit_eq_mask) (simp only: unsigned_take_bit_eq, simp add: take_bit_eq_mod)
qed

lemma decodeHex_byte:
  "foldl (\<lambda>a c. 16 * a + hexval c) a [hextable ! unat (drop_bit 4 v), hextable ! unat ((v :: byte) AND 0x0f)]
     = 256 * a + unat v"
proof -
  have h: "unat v div 16 < 16"
    using unsigned_less [of v, where ?'a = nat] by (simp add: less_mult_imp_div_less)
  have l: "unat v mod 16 < 16" by simp
  show ?thesis
    unfolding unat_hi_nibble unat_lo_nibble
    by (simp add: hexval_hextable [OF h] hexval_hextable [OF l])
qed

lemma decodeHex_bytes:
  "foldl (\<lambda>a c. 16 * a + hexval c) a (EncodeToString bs) = foldl (\<lambda>a b. 256 * a + unat b) a bs"
proof (induction bs arbitrary: a)
  case Nil
  then show ?case by (simp add: EncodeToString_def)
next
  case (Cons v bs)
  have e: "EncodeToString (v # bs)
           = [hextable ! unat (drop_bit 4 v), hextable ! unat (v AND 0x0f)] @ EncodeToString bs"
    by (simp add: EncodeToString_def)
  show ?case
    unfolding e foldl_append decodeHex_byte Cons.IH by simp
qed

lemma unat_digest_byte:
  "unat (ucast (drop_bit k (w :: 128 word)) :: byte) = (unat w div 2 ^ k) mod 256"
proof -
  have "unat (drop_bit k w) = unat w div 2 ^ k"
    by (simp only: unat_drop_bit_eq) (simp only: drop_bit_eq_div)
  then show ?thesis
    by (simp add: unsigned_ucast_eq take_bit_eq_mod)
qed

lemma bytes_prefix_value:
  "n \<le> 16 \<Longrightarrow>
   foldl (\<lambda>a b. 256 * a + unat b) 0 (map (\<lambda>i. ucast (drop_bit (8 * (15 - i)) (w :: 128 word)) :: byte) [0..<n])
     = unat w div 2 ^ (8 * (16 - n))"
proof (induction n)
  case 0
  have "unat w < 2 ^ 128"
    using unsigned_less [of w, where ?'a = nat] by simp
  then show ?case by simp
next
  case (Suc n)
  let ?X = "unat w div 2 ^ (8 * (15 - n))"
  have p: "(2::nat) ^ (8 * (16 - n)) = 2 ^ (8 * (15 - n)) * 256"
  proof -
    have "8 * (16 - n) = 8 * (15 - n) + 8" using Suc.prems by simp
    then show ?thesis by (simp add: power_add)
  qed
  have d: "unat w div 2 ^ (8 * (16 - n)) = ?X div 256"
    unfolding p by (simp add: div_mult2_eq)
  have "foldl (\<lambda>a b. 256 * a + unat b) 0
          (map (\<lambda>i. ucast (drop_bit (8 * (15 - i)) w) :: byte) [0..<Suc n])
        = 256 * (unat w div 2 ^ (8 * (16 - n))) + ?X mod 256"
    using Suc by (simp add: unat_digest_byte)
  also have "\<dots> = ?X" unfolding d by simp
  also have "\<dots> = unat w div 2 ^ (8 * (16 - Suc n))" by simp
  finally show ?case .
qed

lemma decodeHex_digest: "decodeHex (EncodeToString (Sum w)) = unat w"
  using bytes_prefix_value [of 16 w] by (simp add: decodeHex_def decodeHex_bytes Sum_def)

lemma hexval_first:
  "map hexval (take 3 (EncodeToString (Sum w))) =
     [unat (drop_bit 124 w), unat (drop_bit 120 w AND 0x0f), unat (drop_bit 116 w AND 0x0f)]"
proof -
  have a: "unat (drop_bit 124 w) < 16"
  proof -
    have e: "unat (drop_bit 124 w) = unat w div 2 ^ 124"
      by (simp only: unat_drop_bit_eq) (simp only: drop_bit_eq_div)
    have "unat w < 2 ^ 128"
      using unsigned_less [of w, where ?'a = nat] by simp
    then have "unat w div 2 ^ 124 < 16"
      by (simp add: less_mult_imp_div_less)
    then show ?thesis unfolding e .
  qed
  have b: "unat (x AND 0x0f) < 16" for x :: "128 word"
  proof -
    have "x AND 0x0f \<le> 0x0f" by (rule word_and_le1)
    then have "unat (x AND 0x0f) \<le> 15" by (simp add: word_le_nat_alt)
    then show ?thesis by simp
  qed
  show ?thesis
    unfolding hexdigest_first hi_nibble lo_nibble hi_nibble2
    by (simp add: unat_ucast_byte unat_top_nibble unat_and_15 hexval_hextable a b)
qed

section \<open>The claims\<close>

subsection \<open>Validity on the add paths\<close>

text \<open>
  Claim C1 holds for \<^verbatim>\<open>Add\<close> and \<^verbatim>\<open>AddExpiry\<close>, which test \<^verbatim>\<open>IsValid\<close> and return
  \<^verbatim>\<open>nil\<close> without touching the table (lemma \<open>AddExpiry_invalid\<close>), and fails for
  \<^verbatim>\<open>NotFoundAdd\<close> and \<^verbatim>\<open>NotFoundAddExpiry\<close>, which hand the new item to \<^verbatim>\<open>add\<close>
  without the test. On the empty table \<^verbatim>\<open>cache/t\<close> the key \<^verbatim>\<open>.a\<close> is rejected by
  \<^verbatim>\<open>AddExpiry\<close>, while \<^verbatim>\<open>NotFoundAddExpiry\<close> returns \<open>True\<close>, stores the item, and the
  worker then writes the hidden file \<^verbatim>\<open>cache/t/5/1b/.a\<close>. On a table with TTL 0,
  \<^verbatim>\<open>NotFoundAdd\<close> stores an item with TTL 0.
\<close>

theorem C1_NotFoundAddExpiry_invalid:
  "\<not> IsValid (Some (NewCacheItem 0 ''.a'' 5 (Some (7::byte))))
   \<and> fst (AddExpiry 0 0 ''.a'' 5 (Some 7) (exTable 50 [])) = None
   \<and> items (snd (AddExpiry 0 0 ''.a'' 5 (Some 7) (exTable 50 []))) = []
   \<and> fst (NotFoundAddExpiry 0 0 ''.a'' 5 (Some 7) (exTable 50 [])) = True
   \<and> items (snd (NotFoundAddExpiry 0 0 ''.a'' 5 (Some 7) (exTable 50 [])))
       = [(''.a'', NewCacheItem 0 ''.a'' 5 (Some 7))]
   \<and> disk (persistWorker 1 (snd (NotFoundAddExpiry 0 0 ''.a'' 5 (Some 7) (exTable 50 []))))
       = [(''cache/t/5/1b/.a'', \<lparr>content = [7], modTime = 1\<rparr>)]
   \<and> \<not> IsValid (Some (NewCacheItem 0 ''a'' 0 (Some (7::byte))))
   \<and> fst (NotFoundAdd 0 0 ''a'' (Some 7) (exTable 0 [])) = True
   \<and> items (snd (NotFoundAdd 0 0 ''a'' (Some 7) (exTable 0 [])))
       = [(''a'', NewCacheItem 0 ''a'' 0 (Some 7))]"
  by code_simp

subsection \<open>Memory expiry\<close>




subsection \<open>Adding, then getting\<close>

text \<open>
  Claim C9 fails when the TTL of the item has already run out at the clock reading at
  which \<^verbatim>\<open>add\<close> evaluates expiry: \<^verbatim>\<open>add\<close> stores the item, calls \<^verbatim>\<open>expireMemory\<close>, which
  deletes it, and returns it. On the table whose serializer fails, an item with TTL 5
  built at time 0 and added at time 10 is returned and is not in memory.
\<close>

theorem C9_add_no_bytes_counterexample:
  "toBytes exNoBytesTable (data (exItem ''a'' 5 0)) = None
   \<and> items exNoBytesTable = []
   \<and> fst (add 10 (exItem ''a'' 5 0) exNoBytesTable) = exItem ''a'' 5 0
   \<and> items (snd (add 10 (exItem ''a'' 5 0) exNoBytesTable)) = []"
proof -
  have "toBytes exNoBytesTable (data (exItem ''a'' 5 0)) = None"
    by (simp add: exNoBytesTable_def)
  moreover have "items exNoBytesTable = []
   \<and> fst (add 10 (exItem ''a'' 5 0) exNoBytesTable) = exItem ''a'' 5 0
   \<and> items (snd (add 10 (exItem ''a'' 5 0) exNoBytesTable)) = []"
    by code_simp
  ultimately show ?thesis by (rule conjI)
qed

text \<open>
  Claim C9, amended. When the serializer returns \<^verbatim>\<open>nil\<close> for the value of the item,
  \<^verbatim>\<open>add\<close> returns the item and leaves the persistence queue and the disk, files and
  directories, as they were. The item is then in memory under its key, except when
  \<^verbatim>\<open>add\<close> evaluates expiry (the TTL is positive and no sweep is scheduled earlier) and
  the TTL has run out by then: in that case the key is not in memory.
\<close>

theorem C9_add_no_bytes:
  assumes "toBytes tbl (data item) = None" and "distinct (map fst (items tbl))"
  shows "fst (add now item tbl) = item
       \<and> persistQueue (snd (add now item tbl)) = persistQueue tbl
       \<and> disk (snd (add now item tbl)) = disk tbl
       \<and> dirs (snd (add now item tbl)) = dirs tbl
       \<and> map_of (items (snd (add now item tbl))) (key item)
           = (if droppedByAdd now item tbl then None else Some item)"
  using assms by (simp add: fst_add persistQueue_add disk_add dirs_add map_of_items_add)

theorem C9_add_no_bytes_witness:
  "toBytes exNoBytesTable (data (exItem ''a'' 50 0)) = None
   \<and> distinct (map fst (items exNoBytesTable))
   \<and> \<not> droppedByAdd 0 (exItem ''a'' 50 0) exNoBytesTable
   \<and> fst (add 0 (exItem ''a'' 50 0) exNoBytesTable) = exItem ''a'' 50 0
   \<and> persistQueue (snd (add 0 (exItem ''a'' 50 0) exNoBytesTable)) = []
   \<and> disk (snd (add 0 (exItem ''a'' 50 0) exNoBytesTable)) = []
   \<and> map_of (items (snd (add 0 (exItem ''a'' 50 0) exNoBytesTable))) ''a''
       = Some (exItem ''a'' 50 0)
   \<and> droppedByAdd 10 (exItem ''a'' 5 0) exNoBytesTable
   \<and> map_of (items (snd (add 10 (exItem ''a'' 5 0) exNoBytesTable))) ''a'' = None"
proof -
  have n: "toBytes exNoBytesTable (data (exItem ''a'' 50 0)) = None"
    and n': "toBytes exNoBytesTable (data (exItem ''a'' 5 0)) = None"
    by (simp_all add: exNoBytesTable_def)
  have d: "distinct (map fst (items exNoBytesTable))"
    by code_simp
  have e: "\<not> droppedByAdd 0 (exItem ''a'' 50 0) exNoBytesTable"
    by code_simp
  have e': "droppedByAdd 10 (exItem ''a'' 5 0) exNoBytesTable"
    by code_simp
  have q: "persistQueue exNoBytesTable = []"
    by code_simp
  have f: "disk exNoBytesTable = []"
    by code_simp
  have k: "key (exItem ''a'' 50 0) = ''a''" "key (exItem ''a'' 5 0) = ''a''"
    by (simp_all add: exItem_def NewCacheItem_def)
  show ?thesis
    using C9_add_no_bytes [OF n d, of 0] C9_add_no_bytes [OF n' d, of 10] n d e e' q f k
    by simp
qed

text \<open>
  Claim C6 fails on a table whose TTL is 0, the value a configuration has when it sets
  none: \<^verbatim>\<open>Add\<close> builds an item with that TTL, which is not valid, and stores nothing.
\<close>

theorem C6_Add_Get_counterexample:
  "validKey ''a''
   \<and> fst (Add 0 0 ''a'' (Some 7) (exTable 0 [])) = None
   \<and> fst (Get 1 1 ''a'' [] (snd (Add 0 0 ''a'' (Some 7) (exTable 0 [])))) = Inl ErrKeyNotFound"
  by code_simp

text \<open>
  Claim C6, amended. On a table whose TTL is positive, for a valid key and a value that
  is not \<^verbatim>\<open>nil\<close>, \<^verbatim>\<open>Add\<close> followed by \<^verbatim>\<open>Get\<close> returns an item that holds the value and
  has an access count of at least 1. No expiry in between: the TTL has not run out
  when \<^verbatim>\<open>Add\<close> evaluates expiry, and \<^verbatim>\<open>Get\<close> acts on the table that \<^verbatim>\<open>Add\<close> left.
\<close>

theorem C6_Add_Get:
  assumes "distinct (map fst (items tbl))"
    and "validKey k" and "d \<noteq> None" and "0 <s expiryTime tbl"
    and "now - t < sint (expiryTime tbl)"
  shows "fst (Add t now k d tbl) = Some (NewCacheItem t k (expiryTime tbl) d)
       \<and> fst (Get t' now' k args (snd (Add t now k d tbl)))
           = Inr (KeepAlive t' (NewCacheItem t k (expiryTime tbl) d))
       \<and> data (KeepAlive t' (NewCacheItem t k (expiryTime tbl) d)) = d
       \<and> 1 \<le> AccessCount (KeepAlive t' (NewCacheItem t k (expiryTime tbl) d))"
proof -
  let ?item = "NewCacheItem t k (expiryTime tbl) d"
  have v: "IsValid (Some ?item)"
    unfolding IsValid_iff using assms(2-4) by (simp add: NewCacheItem_def)
  have a: "Add t now k d tbl = (Some ?item, snd (add now ?item tbl))"
    unfolding Add_def using v by (rule AddExpiry_valid)
  have e: "\<not> droppedByAdd now ?item tbl"
    using assms(5) by (rule not_dropped_New)
  have m: "map_of (items (snd (Add t now k d tbl))) k = Some ?item"
    using map_of_items_add [OF assms(1), of now ?item] e by (simp add: a NewCacheItem_def)
  show ?thesis
    using a Get_memory [OF m]
    by (simp add: AccessCount_KeepAlive_New) (simp add: KeepAlive_def NewCacheItem_def)
qed

theorem C6_Add_Get_witness:
  "distinct (map fst (items (exTable 50 []))) \<and> validKey ''a'' \<and> Some (7::byte) \<noteq> None
   \<and> 0 <s expiryTime (exTable 50 []) \<and> 0 - 0 < sint (expiryTime (exTable 50 []))
   \<and> fst (Get 1 1 ''a'' [] (snd (Add 0 0 ''a'' (Some 7) (exTable 50 []))))
       = Inr (KeepAlive 1 (NewCacheItem 0 ''a'' 50 (Some 7)))
   \<and> data (KeepAlive 1 (NewCacheItem 0 ''a'' 50 (Some (7::byte)))) = Some 7
   \<and> AccessCount (KeepAlive 1 (NewCacheItem 0 ''a'' 50 (Some (7::byte)))) = 1"
proof -
  have d: "distinct (map fst (items (exTable 50 [])))"
    by code_simp
  have v: "validKey ''a''"
    by code_simp
  have x: "expiryTime (exTable 50 []) = 50"
    by code_simp
  have p: "0 <s expiryTime (exTable 50 [])" "0 - 0 < sint (expiryTime (exTable 50 []))"
    by code_simp+
  have n: "Some (7::byte) \<noteq> None"
    by simp
  show ?thesis
    using C6_Add_Get [OF d v n p, of 1 1 "[]"] d v p
    by (simp add: x AccessCount_KeepAlive_New)
qed

subsection \<open>Get\<close>

text \<open>
  Claim C4 fails in two places. On a table with TTL 0 that has a file for the key and
  a data loader with a valid item for it, the disk yields an item, that item has the
  table's TTL and is not valid, the loader is not asked, and \<^verbatim>\<open>Get\<close> returns the error
  although the key is on disk and the loader has a valid item. On a table with TTL 5
  and a file for the key, a \<^verbatim>\<open>Get\<close> whose \<^verbatim>\<open>add\<close> reads the clock 9 after the item was
  built returns the item of the disk and queues it, but the item is not in memory:
  the expiry evaluation of \<^verbatim>\<open>add\<close> has deleted it.
\<close>

theorem C4_Get_counterexample:
  "map_of (items exLoaderTable) ''a'' = None
   \<and> diskLoader 1 ''a'' exLoaderTable = Some (NewCreatedCacheItem 1 ''a'' 0 (Some 7) 0)
   \<and> dataLoader exLoaderTable = Some exLoader
   \<and> IsValid (exLoader ''a'' [])
   \<and> fst (Get 1 1 ''a'' [] exLoaderTable) = Inl ErrKeyNotFound
   \<and> fst (Get 1 10 ''a'' [] (exFileTable 5)) = Inr (NewCreatedCacheItem 1 ''a'' 5 (Some 7) 0)
   \<and> items (snd (Get 1 10 ''a'' [] (exFileTable 5))) = []"
proof -
  have "dataLoader exLoaderTable = Some exLoader"
    by (simp add: exLoaderTable_def)
  moreover have "map_of (items exLoaderTable) ''a'' = None
   \<and> diskLoader 1 ''a'' exLoaderTable = Some (NewCreatedCacheItem 1 ''a'' 0 (Some 7) 0)
   \<and> IsValid (exLoader ''a'' [])
   \<and> fst (Get 1 1 ''a'' [] exLoaderTable) = Inl ErrKeyNotFound
   \<and> fst (Get 1 10 ''a'' [] (exFileTable 5)) = Inr (NewCreatedCacheItem 1 ''a'' 5 (Some 7) 0)
   \<and> items (snd (Get 1 10 ''a'' [] (exFileTable 5))) = []"
    by code_simp
  ultimately show ?thesis by simp
qed

text \<open>
  Claim C4, amended. \<^verbatim>\<open>Get\<close> returns the not-found error if and only if the key is not
  in memory and the candidate (the item from disk when the disk yields one, otherwise
  the item of the data loader when one is configured) is \<^verbatim>\<open>nil\<close> or not valid; the
  table is then unchanged. A key in memory gives its item, kept alive. Otherwise
  \<^verbatim>\<open>Get\<close> returns the valid candidate and hands it to \<^verbatim>\<open>add\<close>, which queues it for
  persistence when the serializer yields bytes, and after which the candidate is in
  memory under its own key, except when \<^verbatim>\<open>add\<close> evaluates expiry (no sweep is scheduled
  earlier than the TTL) and the TTL has run out by then: in that case the key is not in
  memory.
\<close>

theorem C4_Get:
  assumes "distinct (map fst (items tbl))"
  shows "(fst (Get t now k args tbl) = Inl ErrKeyNotFound
            \<longleftrightarrow> map_of (items tbl) k = None \<and> \<not> IsValid (candidate t k args tbl))
       \<and> (fst (Get t now k args tbl) = Inl ErrKeyNotFound \<longrightarrow> snd (Get t now k args tbl) = tbl)
       \<and> (map_of (items tbl) k = Some r \<longrightarrow>
            Get t now k args tbl
              = (Inr (KeepAlive t r), tbl\<lparr>items := AList.update k (KeepAlive t r) (items tbl)\<rparr>))
       \<and> (map_of (items tbl) k = None \<and> candidate t k args tbl = Some i \<and> IsValid (Some i) \<longrightarrow>
            fst (Get t now k args tbl) = Inr i
            \<and> persistQueue (snd (Get t now k args tbl))
                = persistQueue tbl @ (case toBytes tbl (data i) of None \<Rightarrow> []
                                      | Some b \<Rightarrow> [PersistEntry (key i) b])
            \<and> map_of (items (snd (Get t now k args tbl))) (key i)
                = (if droppedByAdd now i tbl then None else Some i))"
proof (intro conjI impI)
  show nf: "fst (Get t now k args tbl) = Inl ErrKeyNotFound
            \<longleftrightarrow> map_of (items tbl) k = None \<and> \<not> IsValid (candidate t k args tbl)"
  proof (cases "map_of (items tbl) k")
    case None
    then show ?thesis
      by (simp add: Get_miss del: IsValid.simps split: option.splits) simp
  next
    case (Some r)
    then show ?thesis by (simp add: Get_memory)
  qed
  show "snd (Get t now k args tbl) = tbl" if "fst (Get t now k args tbl) = Inl ErrKeyNotFound"
  proof -
    from that nf have n: "map_of (items tbl) k = None" and v: "\<not> IsValid (candidate t k args tbl)"
      by simp_all
    show ?thesis
      using v by (cases "candidate t k args tbl") (simp_all add: Get_miss [OF n] del: IsValid.simps)
  qed
  show "Get t now k args tbl
              = (Inr (KeepAlive t r), tbl\<lparr>items := AList.update k (KeepAlive t r) (items tbl)\<rparr>)"
    if "map_of (items tbl) k = Some r"
    using that by (rule Get_memory)
next
  assume h: "map_of (items tbl) k = None \<and> candidate t k args tbl = Some i \<and> IsValid (Some i)"
  then have g: "Get t now k args tbl = (Inr i, snd (add now i tbl))"
    by (simp add: Get_miss del: IsValid.simps)
  show "fst (Get t now k args tbl) = Inr i"
    by (simp add: g)
  show "persistQueue (snd (Get t now k args tbl))
                = persistQueue tbl @ (case toBytes tbl (data i) of None \<Rightarrow> []
                                      | Some b \<Rightarrow> [PersistEntry (key i) b])"
    by (simp add: g persistQueue_add)
  show "map_of (items (snd (Get t now k args tbl))) (key i)
          = (if droppedByAdd now i tbl then None else Some i)"
    using map_of_items_add [OF assms, of now i] by (simp add: g)
qed

theorem C4_Get_witness:
  "distinct (map fst (items (exTable 50 [])))
   \<and> map_of (items (exTable 50 [])) ''a'' = None
   \<and> \<not> IsValid (candidate 1 ''a'' [] (exTable 50 []))
   \<and> fst (Get 1 1 ''a'' [] (exTable 50 [])) = Inl ErrKeyNotFound
   \<and> snd (Get 1 1 ''a'' [] (exTable 50 [])) = exTable 50 []
   \<and> distinct (map fst (items exStoredTable))
   \<and> map_of (items exStoredTable) ''a'' = Some (exItem ''a'' 50 0)
   \<and> fst (Get 6 6 ''a'' [] exStoredTable) = Inr (KeepAlive 6 (exItem ''a'' 50 0))
   \<and> distinct (map fst (items (exFileTable 50)))
   \<and> map_of (items (exFileTable 50)) ''a'' = None
   \<and> candidate 1 ''a'' [] (exFileTable 50) = Some (NewCreatedCacheItem 1 ''a'' 50 (Some 7) 0)
   \<and> IsValid (Some (NewCreatedCacheItem 1 ''a'' 50 (Some (7::byte)) 0))
   \<and> \<not> droppedByAdd 1 (NewCreatedCacheItem 1 ''a'' 50 (Some 7) 0) (exFileTable 50)
   \<and> fst (Get 1 1 ''a'' [] (exFileTable 50)) = Inr (NewCreatedCacheItem 1 ''a'' 50 (Some 7) 0)
   \<and> persistQueue (snd (Get 1 1 ''a'' [] (exFileTable 50))) = [PersistEntry ''a'' [7]]
   \<and> map_of (items (snd (Get 1 1 ''a'' [] (exFileTable 50)))) ''a''
       = Some (NewCreatedCacheItem 1 ''a'' 50 (Some 7) 0)"
proof -
  have d1: "distinct (map fst (items (exTable 50 [])))"
    and d2: "distinct (map fst (items exStoredTable))"
    and d3: "distinct (map fst (items (exFileTable 50)))"
    by code_simp+
  have n1: "map_of (items (exTable 50 [])) ''a'' = None"
    and c1: "\<not> IsValid (candidate 1 ''a'' [] (exTable 50 []))"
    by code_simp+
  have m2: "map_of (items exStoredTable) ''a'' = Some (exItem ''a'' 50 0)"
    by code_simp
  have n3: "map_of (items (exFileTable 50)) ''a'' = None"
    and c3: "candidate 1 ''a'' [] (exFileTable 50) = Some (NewCreatedCacheItem 1 ''a'' 50 (Some 7) 0)"
    and v3: "IsValid (Some (NewCreatedCacheItem 1 ''a'' 50 (Some (7::byte)) 0))"
    and e3: "\<not> droppedByAdd 1 (NewCreatedCacheItem 1 ''a'' 50 (Some 7) 0) (exFileTable 50)"
    by code_simp+
  have q3: "persistQueue (exFileTable 50) = []"
    and b3: "toBytes (exFileTable 50) (Some 7) = Some [7]"
    by code_simp+
  have k3: "key (NewCreatedCacheItem 1 ''a'' 50 (Some (7::byte)) 0) = ''a''"
    and x3: "data (NewCreatedCacheItem 1 ''a'' 50 (Some (7::byte)) 0) = Some 7"
    by (simp_all add: NewCreatedCacheItem_def)
  have r1: "fst (Get 1 1 ''a'' [] (exTable 50 [])) = Inl ErrKeyNotFound
            \<and> snd (Get 1 1 ''a'' [] (exTable 50 [])) = exTable 50 []"
    using C4_Get [OF d1, of 1 1 "''a''" "[]"] n1 c1 by simp
  have r2: "fst (Get 6 6 ''a'' [] exStoredTable) = Inr (KeepAlive 6 (exItem ''a'' 50 0))"
    using C4_Get [OF d2, of 6 6 "''a''" "[]" "exItem ''a'' 50 0"] m2 by simp
  have r3: "fst (Get 1 1 ''a'' [] (exFileTable 50)) = Inr (NewCreatedCacheItem 1 ''a'' 50 (Some 7) 0)
   \<and> persistQueue (snd (Get 1 1 ''a'' [] (exFileTable 50))) = [PersistEntry ''a'' [7]]
   \<and> map_of (items (snd (Get 1 1 ''a'' [] (exFileTable 50)))) ''a''
       = Some (NewCreatedCacheItem 1 ''a'' 50 (Some 7) 0)"
    using C4_Get [OF d3, of 1 1 "''a''" "[]" _ "NewCreatedCacheItem 1 ''a'' 50 (Some 7) 0"]
          n3 c3 v3 e3 q3 b3
    by (simp add: k3 x3 del: IsValid.simps)
  show ?thesis
    using d1 d2 d3 n1 c1 m2 n3 c3 v3 e3 r1 r2 r3 by (simp del: IsValid.simps)
qed

subsection \<open>NotFoundAdd\<close>

text \<open>
  Claim C5 fails in two places. \<^verbatim>\<open>NotFoundAddExpiry\<close> takes the key to be on disk
  whenever \<^verbatim>\<open>os.Stat\<close> of its file does not fail with the error of a missing file: the
  key of 256 bytes is neither in memory nor on disk in the table below, its shard
  directory exists, \<^verbatim>\<open>os.Stat\<close> fails because the name is too long, and \<^verbatim>\<open>NotFoundAdd\<close>
  returns \<open>False\<close>. And a key that is in neither place is not always retrievable after
  \<open>True\<close> was returned: with a TTL of 5 that has run out when \<^verbatim>\<open>add\<close> evaluates expiry,
  on the table whose serializer fails, the item is neither in memory nor queued for
  the disk, and \<^verbatim>\<open>Get\<close> returns the error.
\<close>

theorem C5_NotFoundAdd_counterexample:
  "map_of (items exLongTable) exLongKey = None
   \<and> disk exLongTable = []
   \<and> Stat (fsOf exLongTable) (getFilePath exLongTable exLongKey) = Inl ENAMETOOLONG
   \<and> fst (NotFoundAdd 2 2 exLongKey (Some 7) exLongTable) = False
   \<and> items exNoBytesTable = []
   \<and> disk exNoBytesTable = []
   \<and> fst (NotFoundAddExpiry 0 10 ''a'' 5 (Some 7) exNoBytesTable) = True
   \<and> items (snd (NotFoundAddExpiry 0 10 ''a'' 5 (Some 7) exNoBytesTable)) = []
   \<and> persistQueue (snd (NotFoundAddExpiry 0 10 ''a'' 5 (Some 7) exNoBytesTable)) = []
   \<and> fst (Get 11 11 ''a'' [] (snd (NotFoundAddExpiry 0 10 ''a'' 5 (Some 7) exNoBytesTable)))
       = Inl ErrKeyNotFound"
  by code_simp

text \<open>
  Claim C5, amended. \<^verbatim>\<open>NotFoundAddExpiry\<close>, and \<^verbatim>\<open>NotFoundAdd\<close>, which is the same at the
  TTL of the table, look the key up in memory and ask \<^verbatim>\<open>os.Stat\<close> for its file. When the
  key is in memory, or \<^verbatim>\<open>os.Stat\<close> does not fail with the error of a missing file, the
  result is \<open>False\<close> and the table, memory and disk, is what it was. Otherwise the
  result is \<open>True\<close> and the new item went through \<^verbatim>\<open>add\<close>: it is in memory under the key,
  and a \<^verbatim>\<open>Get\<close> returns it, except when \<^verbatim>\<open>add\<close> evaluates expiry (the TTL is positive and
  no sweep is scheduled earlier) and the TTL has run out by then, in which case the
  key is not in memory. The check and the insertion are one step of the model, as
  they are one critical section of the source.
\<close>

theorem C5_NotFoundAdd:
  assumes "distinct (map fst (items tbl))"
  shows "(map_of (items tbl) k \<noteq> None \<or> \<not> IsNotExist (Stat (fsOf tbl) (getFilePath tbl k)) \<longrightarrow>
            NotFoundAddExpiry t now k ls d tbl = (False, tbl)
            \<and> NotFoundAdd t now k d tbl = (False, tbl))
       \<and> (map_of (items tbl) k = None \<and> IsNotExist (Stat (fsOf tbl) (getFilePath tbl k)) \<longrightarrow>
            fst (NotFoundAddExpiry t now k ls d tbl) = True
            \<and> map_of (items (snd (NotFoundAddExpiry t now k ls d tbl))) k
                = (if droppedByAdd now (NewCacheItem t k ls d) tbl then None
                   else Some (NewCacheItem t k ls d))
            \<and> (\<not> droppedByAdd now (NewCacheItem t k ls d) tbl \<longrightarrow>
                 fst (Get t' now' k args (snd (NotFoundAddExpiry t now k ls d tbl)))
                   = Inr (KeepAlive t' (NewCacheItem t k ls d)))
            \<and> fst (NotFoundAdd t now k d tbl) = True
            \<and> map_of (items (snd (NotFoundAdd t now k d tbl))) k
                = (if droppedByAdd now (NewCacheItem t k (expiryTime tbl) d) tbl then None
                   else Some (NewCacheItem t k (expiryTime tbl) d))
            \<and> (\<not> droppedByAdd now (NewCacheItem t k (expiryTime tbl) d) tbl \<longrightarrow>
                 fst (Get t' now' k args (snd (NotFoundAdd t now k d tbl)))
                   = Inr (KeepAlive t' (NewCacheItem t k (expiryTime tbl) d))))"
proof -
  have ex: "Exists k tbl
            \<longleftrightarrow> map_of (items tbl) k \<noteq> None \<or> \<not> IsNotExist (Stat (fsOf tbl) (getFilePath tbl k))"
    by (auto simp: Exists_def Let_def)
  have present: "NotFoundAddExpiry t now k ls' d tbl = (False, tbl)"
    if "map_of (items tbl) k \<noteq> None \<or> \<not> IsNotExist (Stat (fsOf tbl) (getFilePath tbl k))" for ls'
    using that ex by (intro NotFoundAddExpiry_present) blast
  have absent: "fst (NotFoundAddExpiry t now k ls' d tbl) = True
      \<and> map_of (items (snd (NotFoundAddExpiry t now k ls' d tbl))) k
           = (if droppedByAdd now (NewCacheItem t k ls' d) tbl then None
              else Some (NewCacheItem t k ls' d))
      \<and> (\<not> droppedByAdd now (NewCacheItem t k ls' d) tbl \<longrightarrow>
           fst (Get t' now' k args (snd (NotFoundAddExpiry t now k ls' d tbl)))
             = Inr (KeepAlive t' (NewCacheItem t k ls' d)))"
    if a: "map_of (items tbl) k = None \<and> IsNotExist (Stat (fsOf tbl) (getFilePath tbl k))" for ls'
  proof -
    from a ex have n: "\<not> Exists k tbl" by blast
    have k: "key (NewCacheItem t k ls' d) = k"
      by (simp add: NewCacheItem_def)
    have m: "map_of (items (snd (NotFoundAddExpiry t now k ls' d tbl))) k
           = (if droppedByAdd now (NewCacheItem t k ls' d) tbl then None
              else Some (NewCacheItem t k ls' d))"
      using map_of_items_add [OF assms, of now "NewCacheItem t k ls' d"] n
      by (simp add: NotFoundAddExpiry_absent k)
    have g: "fst (Get t' now' k args (snd (NotFoundAddExpiry t now k ls' d tbl)))
             = Inr (KeepAlive t' (NewCacheItem t k ls' d))"
      if "\<not> droppedByAdd now (NewCacheItem t k ls' d) tbl"
    proof -
      from m that
      have "map_of (items (snd (NotFoundAddExpiry t now k ls' d tbl))) k
              = Some (NewCacheItem t k ls' d)"
        by simp
      then show ?thesis by (simp add: Get_memory)
    qed
    from n m g show ?thesis
      by (simp add: NotFoundAddExpiry_absent)
  qed
  show ?thesis
    unfolding NotFoundAdd_def using present absent by blast
qed

theorem C5_NotFoundAdd_witness:
  "distinct (map fst (items exStoredTable))
   \<and> map_of (items (DeleteFromMemory ''a'' exStoredTable)) ''a'' = None
   \<and> \<not> IsNotExist (Stat (fsOf (DeleteFromMemory ''a'' exStoredTable))
                      (getFilePath (DeleteFromMemory ''a'' exStoredTable) ''a''))
   \<and> NotFoundAdd 6 6 ''a'' (Some 1) (DeleteFromMemory ''a'' exStoredTable)
       = (False, DeleteFromMemory ''a'' exStoredTable)
   \<and> map_of (items exStoredTable) ''a'' \<noteq> None
   \<and> NotFoundAddExpiry 6 6 ''a'' 50 (Some 1) exStoredTable = (False, exStoredTable)
   \<and> map_of (items exStoredTable) ''b'' = None
   \<and> IsNotExist (Stat (fsOf exStoredTable) (getFilePath exStoredTable ''b''))
   \<and> \<not> droppedByAdd 6 (NewCacheItem 6 ''b'' 50 (Some 1)) exStoredTable
   \<and> fst (NotFoundAdd 6 6 ''b'' (Some 1) exStoredTable) = True
   \<and> map_of (items (snd (NotFoundAdd 6 6 ''b'' (Some 1) exStoredTable))) ''b''
       = Some (NewCacheItem 6 ''b'' 50 (Some 1))
   \<and> fst (Get 7 7 ''b'' [] (snd (NotFoundAdd 6 6 ''b'' (Some 1) exStoredTable)))
       = Inr (KeepAlive 7 (NewCacheItem 6 ''b'' 50 (Some 1)))"
proof -
  let ?D = "DeleteFromMemory ''a'' exStoredTable"
  have d: "distinct (map fst (items exStoredTable))"
    and d': "distinct (map fst (items ?D))"
    by code_simp+
  have a: "map_of (items ?D) ''a'' = None"
    and s: "\<not> IsNotExist (Stat (fsOf ?D) (getFilePath ?D ''a''))"
    and m: "map_of (items exStoredTable) ''a'' \<noteq> None"
    by code_simp+
  have b: "map_of (items exStoredTable) ''b'' = None"
    and sb: "IsNotExist (Stat (fsOf exStoredTable) (getFilePath exStoredTable ''b''))"
    and e: "\<not> droppedByAdd 6 (NewCacheItem 6 ''b'' 50 (Some 1)) exStoredTable"
    and x: "expiryTime exStoredTable = 50"
    by code_simp+
  show ?thesis
    using C5_NotFoundAdd [OF d', of "''a''" 6 6 50 "Some 1"]
          C5_NotFoundAdd [OF d, of "''a''" 6 6 50 "Some 1"]
          C5_NotFoundAdd [OF d, of "''b''" 6 6 50 "Some 1" 7 7 "[]"] a s m b sb e d
    by (simp add: x)
qed

subsection \<open>The invariant of the map\<close>

text \<open>
  Claim C10. In every reachable table, every entry of the in-memory map is stored under
  the key of its item. Each operation keeps it so: \<^verbatim>\<open>add\<close> stores an item under
  \<^verbatim>\<open>item.key\<close>, \<^verbatim>\<open>loadCache\<close> stores under \<open>k\<close> the item that \<^verbatim>\<open>diskLoader\<close> built
  for \<open>k\<close>, \<^verbatim>\<open>KeepAlive\<close> and \<^verbatim>\<open>SetAboutToExpireCallback\<close> leave the key of an item
  alone, and the other operations only remove entries.
\<close>

theorem C10_keysMatch:
  assumes "reachable tbl"
  shows "keysMatch tbl"
  using reachable_wellKeyed [OF assms] by (simp add: wellKeyed_def keysMatch_def)

theorem C10_keysMatch_witness:
  "reachable exStoredTable \<and> keysMatch exStoredTable
   \<and> items exStoredTable = [(''a'', NewCacheItem 0 ''a'' 50 (Some 7))]"
proof -
  have r: "reachable exStoredTable"
    unfolding exStoredTable_def exTable_def Add_def
    by (intro r_persistWorker r_AddExpiry r_start r_AddCache)
  have i: "items exStoredTable = [(''a'', NewCacheItem 0 ''a'' 50 (Some 7))]"
    by code_simp
  show ?thesis
    using C10_keysMatch [OF r] r i by simp
qed

subsection \<open>The walk and the disk sweep\<close>

text \<open>
  Claim C3 fails. The walk cuts the path at its first two separators and passes what
  follows the second one; a path is \<open>cacheDir/name/h/hh/key\<close>, so when the cache
  directory and the table name hold no separator the visitor gets \<open>h/hh/key\<close> (lemma
  \<open>walk_key_of_getFilePath\<close>), and more of the path when they do. For the file that the
  worker wrote for the key \<^verbatim>\<open>a\<close> of the table \<^verbatim>\<open>cache/t\<close>, \<^verbatim>\<open>ForeachDisk\<close> calls its
  walker with the key \<^verbatim>\<open>0/cc/a\<close> (and the modification time 5 of the file).
\<close>

theorem C3_walk_key:
  "persistQueue (snd (Add 0 0 ''a'' (Some 7) (exTable 50 []))) = [PersistEntry ''a'' [7]]
   \<and> disk exStoredTable = [(''cache/t/0/cc/a'', \<lparr>content = [7], modTime = 5\<rparr>)]
   \<and> basePath exStoredTable = ''cache/t''
   \<and> getFilePath exStoredTable ''a'' = ''cache/t/0/cc/a''
   \<and> SplitN ''cache/t/0/cc/a'' os_PathSeparator 3 = [''cache'', ''t'', ''0/cc/a'']
   \<and> ForeachDisk 9 exStoredTable = [(''0/cc/a'', NewCreatedCacheItem 9 ''0/cc/a'' 50 None 5)]"
  by code_simp

text \<open>
  Claim C7 fails, by the same defect as C3. The sweep at time 1000 with a maximal age of
  10 finds the file of the key \<^verbatim>\<open>a\<close>, modified at time 5 and so older than the cutoff
  990, counts it as expired and calls \<^verbatim>\<open>DeleteFromMemoryAndDisk\<close> with the key
  \<^verbatim>\<open>0/cc/a\<close>: the file and the item of \<^verbatim>\<open>a\<close> in memory both stay. The timer is armed
  again with the interval of the table, as it is after every sweep (lemma
  \<open>ExpireDiskMaxAge_rearms\<close>).
\<close>

theorem C7_ExpireDiskMaxAge_keeps_file:
  "disk exStoredTable = [(''cache/t/0/cc/a'', \<lparr>content = [7], modTime = 5\<rparr>)]
   \<and> items exStoredTable = [(''a'', NewCacheItem 0 ''a'' 50 (Some 7))]
   \<and> fst (ExpireDiskMaxAge 1000 10 exStoredTable) = 1
   \<and> disk (snd (ExpireDiskMaxAge 1000 10 exStoredTable))
       = [(''cache/t/0/cc/a'', \<lparr>content = [7], modTime = 5\<rparr>)]
   \<and> items (snd (ExpireDiskMaxAge 1000 10 exStoredTable))
       = [(''a'', NewCacheItem 0 ''a'' 50 (Some 7))]
   \<and> diskExpiryTimer (snd (ExpireDiskMaxAge 1000 10 exStoredTable)) = Some Hour"
  by code_simp

subsection \<open>The path of a key\<close>

text \<open>
  Claim C8. The file of a key is \<open>basePath/h0/h1h2/key\<close>, where \<open>h\<close> is the digest of the
  key written in hexadecimal: 32 digits that denote the 128-bit digest, the first
  three being the digits of its three most significant nibbles; the file name is the
  key itself. The digest of the key \<^verbatim>\<open>a\<close> is written \<^verbatim>\<open>0cc175b9c0f1b6a831c399e269772661\<close>
  and its file in the table \<^verbatim>\<open>cache/t\<close> is \<^verbatim>\<open>cache/t/0/cc/a\<close>. \<^verbatim>\<open>start\<close> sets the base
  path to \<open>cacheDir/name\<close>, and \<^verbatim>\<open>persist\<close> makes the shard directory and writes the
  bytes of an entry to the file of its key.
\<close>

theorem C8_getFilePath:
  "getPath tbl k =
     (basePath tbl @ ''/'' @ take 1 (EncodeToString (Sum (md5sum tbl k)))
        @ ''/'' @ take 2 (drop 1 (EncodeToString (Sum (md5sum tbl k)))), k)
   \<and> getFilePath tbl k =
       basePath tbl @ ''/'' @ [EncodeToString (Sum (md5sum tbl k)) ! 0]
         @ ''/'' @ [EncodeToString (Sum (md5sum tbl k)) ! 1, EncodeToString (Sum (md5sum tbl k)) ! 2]
         @ ''/'' @ k
   \<and> length (EncodeToString (Sum (md5sum tbl k))) = 32
   \<and> decodeHex (EncodeToString (Sum (md5sum tbl k))) = unat (md5sum tbl k)
   \<and> map hexval (take 3 (EncodeToString (Sum (md5sum tbl k)))) =
       [unat (drop_bit 124 (md5sum tbl k)),
        unat (drop_bit 120 (md5sum tbl k) AND 0x0f),
        unat (drop_bit 116 (md5sum tbl k) AND 0x0f)]
   \<and> EncodeToString (Sum 0x0cc175b9c0f1b6a831c399e269772661) = ''0cc175b9c0f1b6a831c399e269772661''
   \<and> EncodeToString (Sum 0x0123456789abcdeffedcba9876543210) = ''0123456789abcdeffedcba9876543210''
   \<and> getFilePath exStoredTable ''a'' = ''cache/t/0/cc/a''
   \<and> basePath (snd (start tbl)) = cacheDir tbl @ ''/'' @ name tbl
   \<and> persist t (PersistEntry k b) tbl =
       withFs tbl (WriteFile (snd (MkdirAll (fsOf tbl) (fst (getPath tbl k))))
                     (getFilePath tbl k) b t)
   \<and> disk (persist 5 (PersistEntry ''a'' [7]) (exTable 50 []))
       = [(''cache/t/0/cc/a'', \<lparr>content = [7], modTime = 5\<rparr>)]"
proof (intro conjI)
  let ?h = "EncodeToString (Sum (md5sum tbl k))"
  have l: "length ?h = 32" by (rule length_hexdigest)
  show "getPath tbl k = (basePath tbl @ ''/'' @ take 1 ?h @ ''/'' @ take 2 (drop 1 ?h), k)"
    by (simp add: getPath_def Let_def PathSeparator_def os_PathSeparator_def)
  have t1: "take 1 ?h = [?h ! 0]"
    using l by (simp add: take_Suc_conv_app_nth)
  have t2: "take 2 (drop 1 ?h) = [?h ! 1, ?h ! 2]"
    using l by (simp add: numeral_2_eq_2 take_Suc_conv_app_nth)
  show "getFilePath tbl k = basePath tbl @ ''/'' @ [?h ! 0] @ ''/'' @ [?h ! 1, ?h ! 2] @ ''/'' @ k"
    unfolding getFilePath_def getPath_def Let_def t1 t2
    by (simp add: PathSeparator_def os_PathSeparator_def)
  show "length ?h = 32" by (rule l)
  show "decodeHex ?h = unat (md5sum tbl k)" by (rule decodeHex_digest)
  show "map hexval (take 3 ?h) =
       [unat (drop_bit 124 (md5sum tbl k)),
        unat (drop_bit 120 (md5sum tbl k) AND 0x0f),
        unat (drop_bit 116 (md5sum tbl k) AND 0x0f)]"
    by (rule hexval_first)
  show "EncodeToString (Sum 0x0cc175b9c0f1b6a831c399e269772661) = ''0cc175b9c0f1b6a831c399e269772661''"
    by code_simp
  show "EncodeToString (Sum 0x0123456789abcdeffedcba9876543210) = ''0123456789abcdeffedcba9876543210''"
    by code_simp
  show "getFilePath exStoredTable ''a'' = ''cache/t/0/cc/a''"
    by code_simp
  show "basePath (snd (start tbl)) = cacheDir tbl @ ''/'' @ name tbl"
    by (simp add: start_def Let_def startDiskExpiryTimer_def split_beta withFs_def
                  PathSeparator_def os_PathSeparator_def)
  show "persist t (PersistEntry k b) tbl =
       withFs tbl (WriteFile (snd (MkdirAll (fsOf tbl) (fst (getPath tbl k))))
                     (getFilePath tbl k) b t)"
    by (simp add: persist_def getFilePath_def Let_def split_beta)
  show "disk (persist 5 (PersistEntry ''a'' [7]) (exTable 50 []))
       = [(''cache/t/0/cc/a'', \<lparr>content = [7], modTime = 5\<rparr>)]"
    by code_simp
qed

end
